theory Spec2Isabelle
  imports Complex_Main
begin

section \<open>Numbers, errors and tensors\<close>

text \<open>
  The scheduler computes on floating-point tensors. This development reads every finite
  floating-point number as the real number it stands for and every arithmetic operation
  on finite numbers as the exact operation: rounding and overflow are left out, except
  in the section on the step in rounded arithmetic, which the statements that depend on
  them are about. What is kept throughout is the way the code leaves the finite
  numbers: a division by zero and a root of a
  negative number raise nothing in torch or numpy, they yield an infinity or a nan, and
  every later result computed from it is an infinity or a nan again on the paths
  modelled here. \<open>NonFin\<close> stands for such a value; which of the three it is, is not
  tracked.
\<close>

datatype fl = Fin real | NonFin

fun fl_add :: "fl \<Rightarrow> fl \<Rightarrow> fl" where
  "fl_add (Fin a) (Fin b) = Fin (a + b)"
| "fl_add _ _ = NonFin"

fun fl_sub :: "fl \<Rightarrow> fl \<Rightarrow> fl" where
  "fl_sub (Fin a) (Fin b) = Fin (a - b)"
| "fl_sub _ _ = NonFin"

fun fl_mul :: "fl \<Rightarrow> fl \<Rightarrow> fl" where
  "fl_mul (Fin a) (Fin b) = Fin (a * b)"
| "fl_mul _ _ = NonFin"

fun fl_div :: "fl \<Rightarrow> fl \<Rightarrow> fl" where
  "fl_div (Fin a) (Fin b) = (if b = 0 then NonFin else Fin (a / b))"
| "fl_div _ _ = NonFin"

text \<open>\<open>x ** 2\<close> and \<open>x ** 0.5\<close> on a tensor element.\<close>

fun fl_pow2 :: "fl \<Rightarrow> fl" where
  "fl_pow2 (Fin a) = Fin (a * a)"
| "fl_pow2 NonFin = NonFin"

fun fl_sqrt :: "fl \<Rightarrow> fl" where
  "fl_sqrt (Fin a) = (if a < 0 then NonFin else Fin (sqrt a))"
| "fl_sqrt NonFin = NonFin"





datatype error = NotImplementedError | RuntimeError | ValueError | IndexError | TypeError

definition bind_e :: "error + 'a \<Rightarrow> ('a \<Rightarrow> error + 'b) \<Rightarrow> error + 'b" where
  "bind_e m f = (case m of Inl e \<Rightarrow> Inl e | Inr x \<Rightarrow> f x)"

text \<open>
  A tensor is modelled as a one-dimensional array. An elementwise operation on two
  tensors broadcasts a tensor of one element against the other and raises on any other
  difference of size.
\<close>

type_synonym tensor = "fl list"

definition tensor_op :: "(fl \<Rightarrow> fl \<Rightarrow> fl) \<Rightarrow> tensor \<Rightarrow> tensor \<Rightarrow> error + tensor" where
  "tensor_op f xs ys =
     (if length xs = length ys then Inr (map2 f xs ys)
      else if length xs = 1 then Inr (map (f (hd xs)) ys)
      else if length ys = 1 then Inr (map (\<lambda>x. f x (hd ys)) xs)
      else Inl RuntimeError)"

text \<open>
  \<open>xs[i]\<close> for a Python integer \<open>i\<close>: an index from \<open>-len\<close> up to \<open>-1\<close>
  reads from the end, and an index outside \<open>-len .. len - 1\<close> raises IndexError.
\<close>

definition py_index :: "'a list \<Rightarrow> int \<Rightarrow> error + 'a" where
  "py_index xs i =
     (if 0 \<le> i \<and> i < int (length xs) then Inr (xs ! nat i)
      else if - int (length xs) \<le> i \<and> i < 0 then Inr (xs ! nat (i + int (length xs)))
      else Inl IndexError)"

text \<open>Indexing an array with an array of indices, \<open>sigmas[low_idx]\<close>.\<close>

fun gather :: "'a list \<Rightarrow> int list \<Rightarrow> error + 'a list" where
  "gather xs [] = Inr []"
| "gather xs (i # is) =
     (case py_index xs i of
        Inl e \<Rightarrow> Inl e
      | Inr v \<Rightarrow> (case gather xs is of Inl e \<Rightarrow> Inl e | Inr vs \<Rightarrow> Inr (v # vs)))"

text \<open>
  \<open>np.linspace(start, stop, num)\<close> and \<open>torch.linspace(start, end, steps)\<close>: \<open>num\<close>
  evenly spaced values from \<open>start\<close> to \<open>stop\<close>, both included; one value is
  \<open>start\<close>; a negative count raises (ValueError in numpy, RuntimeError in torch).
\<close>

definition linspace :: "real \<Rightarrow> real \<Rightarrow> nat \<Rightarrow> real list" where
  "linspace start stop n =
     (if n = 1 then [start]
      else map (\<lambda>i. start + real i * ((stop - start) / real (n - 1))) [0..<n])"

definition np_linspace :: "real \<Rightarrow> real \<Rightarrow> int \<Rightarrow> error + real list" where
  "np_linspace start stop num =
     (if num < 0 then Inl ValueError else Inr (linspace start stop (nat num)))"

definition torch_linspace :: "real \<Rightarrow> real \<Rightarrow> int \<Rightarrow> error + fl list" where
  "torch_linspace start stop steps =
     (if steps < 0 then Inl RuntimeError else Inr (map Fin (linspace start stop (nat steps))))"

text \<open>\<open>torch.cumprod(xs, dim=0)\<close>: the running products.\<close>

fun cumprod_from :: "fl \<Rightarrow> fl list \<Rightarrow> fl list" where
  "cumprod_from acc [] = []"
| "cumprod_from acc (x # xs) = fl_mul acc x # cumprod_from (fl_mul acc x) xs"

definition cumprod :: "fl list \<Rightarrow> fl list" where
  "cumprod xs = cumprod_from (Fin 1) xs"

text \<open>
  \<open>torch.randn_like(t)\<close> draws one standard normal number per element of \<open>t\<close> from
  torch's default generator and advances the generator. The generator is not part of
  these sources: its state is a value of type \<open>'g\<close> and one draw is the parameter
  \<open>draw\<close>.
\<close>

fun randn_like :: "('g \<Rightarrow> real \<times> 'g) \<Rightarrow> nat \<Rightarrow> 'g \<Rightarrow> real list \<times> 'g" where
  "randn_like draw 0 g = ([], g)"
| "randn_like draw (Suc n) g =
     (case draw g of (x, g1) \<Rightarrow> (case randn_like draw n g1 of (xs, g2) \<Rightarrow> (x # xs, g2)))"

section \<open>EulerAncestralDiscreteScheduler\<close>

record config =
  num_train_timesteps :: int
  beta_start :: real
  beta_end :: real
  beta_schedule :: string
  trained_betas :: "fl list option"

record scheduler =
  config :: config
  betas :: "fl list"
  alphas :: "fl list"
  alphas_cumprod :: "fl list"
  sigmas :: "fl list"
  init_noise_sigma :: "fl option"
  num_inference_steps :: "int option"
  timesteps :: "real list"
  derivatives :: "tensor list"
  is_scale_input_called :: bool

text \<open>\<open>((1 - alphas_cumprod) / alphas_cumprod) ** 0.5\<close>, for one element.\<close>

definition sigma_of :: "fl \<Rightarrow> fl" where
  "sigma_of a = fl_sqrt (fl_div (fl_sub (Fin 1) a) a)"

text \<open>
  The betas of \<open>__init__\<close>. In the scaled-linear branch Python evaluates
  \<open>beta_start**0.5\<close> and \<open>beta_end**0.5\<close> first; for a negative bound that is a
  complex number, which \<open>torch.linspace\<close> refuses for a real dtype.
\<close>

definition schedule_betas :: "config \<Rightarrow> error + fl list" where
  "schedule_betas cfg =
     (case trained_betas cfg of
        Some tb \<Rightarrow> Inr tb
      | None \<Rightarrow>
          if beta_schedule cfg = ''linear'' then
            torch_linspace (beta_start cfg) (beta_end cfg) (num_train_timesteps cfg)
          else if beta_schedule cfg = ''scaled_linear'' then
            (if beta_start cfg < 0 \<or> beta_end cfg < 0 then Inl RuntimeError
             else bind_e (torch_linspace (sqrt (beta_start cfg)) (sqrt (beta_end cfg))
                            (num_train_timesteps cfg))
                    (\<lambda>l. Inr (map fl_pow2 l)))
          else Inl NotImplementedError)"

definition init :: "config \<Rightarrow> error + scheduler" where
  "init cfg =
     bind_e (schedule_betas cfg) (\<lambda>bs.
       let al = map (fl_sub (Fin 1)) bs;
           acp = cumprod al;
           sg = map sigma_of acp
       in Inr \<lparr> config = cfg, betas = bs, alphas = al, alphas_cumprod = acp,
                sigmas = rev sg @ [Fin 0],
                init_noise_sigma = None,
                num_inference_steps = None,
                timesteps = rev (map real_of_int [0..num_train_timesteps cfg - 1]),
                derivatives = [],
                is_scale_input_called = False \<rparr>)"

text \<open>
  \<open>set_timesteps\<close>. \<open>self.num_train_timesteps\<close> is the configured value;
  \<open>np.mod(t, 1.0)\<close> is the fractional part of \<open>t\<close>. The \<open>device\<close> argument is
  never read.
\<close>

definition interpolate :: "real \<Rightarrow> fl \<Rightarrow> fl \<Rightarrow> fl" where
  "interpolate fr lo hi = fl_add (fl_mul (Fin (1 - fr)) lo) (fl_mul (Fin fr) hi)"

definition set_timesteps :: "scheduler \<Rightarrow> int \<Rightarrow> error + scheduler" where
  "set_timesteps self n =
     bind_e (np_linspace (real_of_int (num_train_timesteps (config self) - 1)) 0 n) (\<lambda>ts.
       let low_idx = map floor ts;
           high_idx = map ceiling ts;
           fr = map frac ts;
           sg = map sigma_of (alphas_cumprod self)
       in bind_e (gather sg low_idx) (\<lambda>lo.
          bind_e (gather sg high_idx) (\<lambda>hi.
            let sg' = map (\<lambda>(f, l, h). interpolate f l h) (zip fr (zip lo hi)) @ [Fin 0]
            in Inr (self \<lparr> num_inference_steps := Some n,
                           timesteps := ts,
                           sigmas := sg',
                           init_noise_sigma := Some (sg' ! 0),
                           derivatives := [] \<rparr>))))"

text \<open>The noise levels of one step (lines 161 and 162 of the scheduler).\<close>

definition sigma_up :: "fl \<Rightarrow> fl \<Rightarrow> fl" where
  "sigma_up sigma_from sigma_to =
     fl_sqrt (fl_div (fl_mul (fl_pow2 sigma_to) (fl_sub (fl_pow2 sigma_from) (fl_pow2 sigma_to)))
                     (fl_pow2 sigma_from))"

definition sigma_down :: "fl \<Rightarrow> fl \<Rightarrow> fl" where
  "sigma_down sigma_to s_up = fl_sqrt (fl_sub (fl_pow2 sigma_to) (fl_pow2 s_up))"

text \<open>\<open>sample + derivative * dt\<close>, the update without the noise.\<close>

definition euler_update :: "tensor \<Rightarrow> tensor \<Rightarrow> fl \<Rightarrow> error + tensor" where
  "euler_update sample derivative dt = tensor_op fl_add sample (map (\<lambda>d. fl_mul d dt) derivative)"

text \<open>
  \<open>step\<close> returns the previous sample, the scheduler with the derivative appended and
  the generator after the draw. The \<open>timestep\<close> argument is never read.
\<close>

definition step ::
  "('g \<Rightarrow> real \<times> 'g) \<Rightarrow> scheduler \<Rightarrow> 'g \<Rightarrow> tensor \<Rightarrow> real \<Rightarrow> int \<Rightarrow> tensor
     \<Rightarrow> error + (tensor \<times> scheduler \<times> 'g)" where
  "step draw self g model_output timestep step_index sample =
     bind_e (py_index (sigmas self) step_index) (\<lambda>sigma.
     bind_e (tensor_op fl_sub sample (map (fl_mul sigma) model_output)) (\<lambda>pred_original_sample.
     bind_e (py_index (sigmas self) step_index) (\<lambda>sigma_from.
     bind_e (py_index (sigmas self) (step_index + 1)) (\<lambda>sigma_to.
       let s_up = sigma_up sigma_from sigma_to;
           s_down = sigma_down sigma_to s_up
       in bind_e (tensor_op fl_sub sample pred_original_sample) (\<lambda>diff.
          let derivative = map (\<lambda>d. fl_div d sigma) diff;
              self' = self \<lparr> derivatives := derivatives self @ [derivative] \<rparr>;
              dt = fl_sub s_down sigma
          in bind_e (euler_update sample derivative dt) (\<lambda>prev_sample.
             case randn_like draw (length prev_sample) g of
               (noise, g') \<Rightarrow>
                 bind_e (tensor_op fl_add prev_sample (map (\<lambda>z. fl_mul (Fin z) s_up) noise))
                   (\<lambda>prev_sample'. Inr (prev_sample', self', g'))))))))"

text \<open>A sequence of calls to \<open>step\<close>, each with its own arguments; the first one that
  raises ends the sequence.\<close>

fun steps ::
  "('g \<Rightarrow> real \<times> 'g) \<Rightarrow> scheduler \<Rightarrow> 'g \<Rightarrow> (tensor \<times> real \<times> int \<times> tensor) list
     \<Rightarrow> error + (tensor list \<times> scheduler \<times> 'g)" where
  "steps draw self g [] = Inr ([], self, g)"
| "steps draw self g ((model_output, timestep, step_index, sample) # cs) =
     (case step draw self g model_output timestep step_index sample of
        Inl e \<Rightarrow> Inl e
      | Inr (p, self', g') \<Rightarrow>
          (case steps draw self' g' cs of
             Inl e \<Rightarrow> Inl e
           | Inr (ps, self'', g'') \<Rightarrow> Inr (p # ps, self'', g'')))"

text \<open>
  The configurations on which \<open>__init__\<close> returns, as shown below: explicit
  betas, or one of the two schedule names with a step count that \<open>torch.linspace\<close>
  accepts and, for the scaled schedule, bounds with a real root.
\<close>

definition supported :: "config \<Rightarrow> bool" where
  "supported cfg =
     (trained_betas cfg \<noteq> None
      \<or> (0 \<le> num_train_timesteps cfg
         \<and> (beta_schedule cfg = ''linear''
            \<or> (beta_schedule cfg = ''scaled_linear'' \<and> 0 \<le> beta_start cfg \<and> 0 \<le> beta_end cfg))))"

text \<open>
  What a pipeline does before its loop and in it: construct the scheduler, set the
  inference steps, then call \<open>step\<close>. \<open>prev_sample_of\<close> keeps the returned sample.
\<close>

definition configured :: "config \<Rightarrow> int \<Rightarrow> error + scheduler" where
  "configured cfg n = bind_e (init cfg) (\<lambda>self. set_timesteps self n)"

definition configured_step ::
  "('g \<Rightarrow> real \<times> 'g) \<Rightarrow> config \<Rightarrow> int \<Rightarrow> 'g \<Rightarrow> tensor \<Rightarrow> real \<Rightarrow> int \<Rightarrow> tensor
     \<Rightarrow> error + (tensor \<times> scheduler \<times> 'g)" where
  "configured_step draw cfg n g model_output timestep step_index sample =
     bind_e (configured cfg n) (\<lambda>self. step draw self g model_output timestep step_index sample)"

definition prev_sample_of :: "error + (tensor \<times> scheduler \<times> 'g) \<Rightarrow> error + tensor" where
  "prev_sample_of r = map_sum id fst r"


text \<open>
  A call of \<open>set_timesteps(self, num_inference_steps, device=None)\<close> with positional
  and keyword arguments, bound to the parameters as Python binds them: too many
  positional arguments, a keyword that is no parameter, a parameter given twice and a
  missing \<open>num_inference_steps\<close> are each a TypeError before the body runs. A step
  count that is not an integer is refused by \<open>np.linspace\<close> with a TypeError.
\<close>

datatype pyval = PyInt int | PyList "real list" | PyStr string | PyNone

definition call_set_timesteps ::
  "scheduler \<Rightarrow> pyval list \<Rightarrow> (string \<times> pyval) list \<Rightarrow> error + scheduler" where
  "call_set_timesteps self args kwargs =
     (let names = map fst kwargs in
      if 2 < length args then Inl TypeError
      else if \<not> list_all (\<lambda>k. k = ''num_inference_steps'' \<or> k = ''device'') names then Inl TypeError
      else if (1 \<le> length args \<and> ''num_inference_steps'' \<in> set names)
              \<or> (2 \<le> length args \<and> ''device'' \<in> set names) then Inl TypeError
      else (case (if 1 \<le> length args then Some (args ! 0)
                  else map_of kwargs ''num_inference_steps'') of
              Some (PyInt n) \<Rightarrow> set_timesteps self n
            | _ \<Rightarrow> Inl TypeError))"

text \<open>The same call on a freshly constructed scheduler.\<close>

definition configured_call ::
  "config \<Rightarrow> pyval list \<Rightarrow> (string \<times> pyval) list \<Rightarrow> error + scheduler" where
  "configured_call cfg args kwargs =
     bind_e (init cfg) (\<lambda>self. call_set_timesteps self args kwargs)"

section \<open>Guidance\<close>

text \<open>
  \<open>t.chunk(n)\<close> cuts a tensor into pieces of \<open>ceil(len / n)\<close> elements, the last one
  shorter when the length is no multiple; it can return fewer than \<open>n\<close> pieces, and
  \<open>n\<close> empty ones for an empty tensor.
\<close>

fun pieces :: "nat \<Rightarrow> nat \<Rightarrow> 'a list \<Rightarrow> 'a list list" where
  "pieces 0 c xs = []"
| "pieces (Suc k) c xs = take c xs # pieces k c (drop c xs)"

definition chunk :: "nat \<Rightarrow> 'a list \<Rightarrow> error + 'a list list" where
  "chunk n xs =
     (if n = 0 then Inl RuntimeError
      else let c = (length xs + n - 1) div n
           in if c = 0 then Inr (replicate n [])
              else Inr (pieces ((length xs + c - 1) div c) c xs))"

text \<open>The PAG mixin: \<open>_pag_scale\<close> and \<open>_pag_adaptive_scaling\<close> as set by \<open>enable_pag\<close>.\<close>

record pag_mixin =
  pag_scale :: real
  pag_adaptive_scaling :: real

definition get_pag_scale :: "pag_mixin \<Rightarrow> real \<Rightarrow> real" where
  "get_pag_scale self t =
     (if pag_adaptive_scaling self > 0 then
        (let signal_scale = pag_scale self - pag_adaptive_scaling self * (1000 - t)
         in if signal_scale < 0 then 0 else signal_scale)
      else pag_scale self)"

text \<open>Unpacking into two or three names raises ValueError on any other number of pieces.\<close>

definition apply_perturbed_attention_guidance ::
  "pag_mixin \<Rightarrow> tensor \<Rightarrow> bool \<Rightarrow> real \<Rightarrow> real \<Rightarrow> error + tensor" where
  "apply_perturbed_attention_guidance self noise_pred do_classifier_free_guidance guidance_scale t =
     (let scale = get_pag_scale self t in
      if do_classifier_free_guidance then
        bind_e (chunk 3 noise_pred) (\<lambda>cs.
          case cs of
            [noise_pred_uncond, noise_pred_text, noise_pred_perturb] \<Rightarrow>
              bind_e (tensor_op fl_sub noise_pred_text noise_pred_uncond) (\<lambda>d1.
              bind_e (tensor_op fl_add noise_pred_uncond (map (fl_mul (Fin guidance_scale)) d1)) (\<lambda>s1.
              bind_e (tensor_op fl_sub noise_pred_text noise_pred_perturb) (\<lambda>d2.
                tensor_op fl_add s1 (map (fl_mul (Fin scale)) d2))))
          | _ \<Rightarrow> Inl ValueError)
      else
        bind_e (chunk 2 noise_pred) (\<lambda>cs.
          case cs of
            [noise_pred_uncond, noise_pred_perturb] \<Rightarrow>
              bind_e (tensor_op fl_sub noise_pred_uncond noise_pred_perturb) (\<lambda>d.
                tensor_op fl_add noise_pred_uncond (map (fl_mul (Fin scale)) d))
          | _ \<Rightarrow> Inl ValueError))"

text \<open>
  The guidance of the Meissonic inpainting pipeline (lines 393 to 397 of its
  \<open>__call__\<close>): the model output is combined only when the scale exceeds one.
\<close>

definition meissonic_guidance :: "real \<Rightarrow> tensor \<Rightarrow> error + tensor" where
  "meissonic_guidance guidance_scale model_output =
     (if guidance_scale > 1 then
        bind_e (chunk 2 model_output) (\<lambda>cs.
          case cs of
            [uncond_logits, cond_logits] \<Rightarrow>
              bind_e (tensor_op fl_sub cond_logits uncond_logits) (\<lambda>d.
                tensor_op fl_add uncond_logits (map (fl_mul (Fin guidance_scale)) d))
          | _ \<Rightarrow> Inl ValueError)
      else Inr model_output)"

section \<open>The step in rounded arithmetic\<close>

text \<open>
  The definitions above compute with exact numbers. A floating-point format rounds
  every exact result to a number it represents, and to an infinity where the result is
  out of its range. The operations below take that rounding as the parameter \<open>rnd\<close>
  (\<open>rnd x = NonFin\<close> is an overflow); with \<open>rnd = Fin\<close> they are the exact ones, with
  \<open>rnd = binary32\<close> they are the single-precision operations of the tensors that
  \<open>step\<close> works on. An infinity that an overflow produces stays an infinity or turns
  into a nan in every later operation of \<open>step\<close> (it never divides a finite number
  there), so \<open>NonFin\<close> stands for it as well.
\<close>

fun fl_add_r :: "(real \<Rightarrow> fl) \<Rightarrow> fl \<Rightarrow> fl \<Rightarrow> fl" where
  "fl_add_r rnd (Fin a) (Fin b) = rnd (a + b)"
| "fl_add_r rnd _ _ = NonFin"

fun fl_sub_r :: "(real \<Rightarrow> fl) \<Rightarrow> fl \<Rightarrow> fl \<Rightarrow> fl" where
  "fl_sub_r rnd (Fin a) (Fin b) = rnd (a - b)"
| "fl_sub_r rnd _ _ = NonFin"

fun fl_mul_r :: "(real \<Rightarrow> fl) \<Rightarrow> fl \<Rightarrow> fl \<Rightarrow> fl" where
  "fl_mul_r rnd (Fin a) (Fin b) = rnd (a * b)"
| "fl_mul_r rnd _ _ = NonFin"

fun fl_div_r :: "(real \<Rightarrow> fl) \<Rightarrow> fl \<Rightarrow> fl \<Rightarrow> fl" where
  "fl_div_r rnd (Fin a) (Fin b) = (if b = 0 then NonFin else rnd (a / b))"
| "fl_div_r rnd _ _ = NonFin"

fun fl_pow2_r :: "(real \<Rightarrow> fl) \<Rightarrow> fl \<Rightarrow> fl" where
  "fl_pow2_r rnd (Fin a) = rnd (a * a)"
| "fl_pow2_r rnd NonFin = NonFin"

fun fl_sqrt_r :: "(real \<Rightarrow> fl) \<Rightarrow> fl \<Rightarrow> fl" where
  "fl_sqrt_r rnd (Fin a) = (if a < 0 then NonFin else rnd (sqrt a))"
| "fl_sqrt_r rnd NonFin = NonFin"

text \<open>
  Rounding to the nearest single-precision number, ties to the even significand: 24
  significant bits, exponents from \<open>-126\<close> (below it the spacing stays \<open>2^-149\<close>), and
  an infinity for a rounded magnitude of \<open>2^128\<close> or more. The sign of a zero is not
  kept.
\<close>

definition nearest_even :: "real \<Rightarrow> int" where
  "nearest_even q =
     (if frac q < 1/2 then \<lfloor>q\<rfloor>
      else if 1/2 < frac q then \<lfloor>q\<rfloor> + 1
      else if even \<lfloor>q\<rfloor> then \<lfloor>q\<rfloor> else \<lfloor>q\<rfloor> + 1)"

definition binary32 :: "real \<Rightarrow> fl" where
  "binary32 x =
     (if x = 0 then Fin 0
      else let e = max \<lfloor>log 2 \<bar>x\<bar>\<rfloor> (- 126);
               ulp = 2 powr real_of_int (e - 23);
               r = real_of_int (nearest_even (x / ulp)) * ulp
           in if 2 ^ 128 \<le> \<bar>r\<bar> then NonFin else Fin r)"

definition sigma_up_r :: "(real \<Rightarrow> fl) \<Rightarrow> fl \<Rightarrow> fl \<Rightarrow> fl" where
  "sigma_up_r rnd sigma_from sigma_to =
     fl_sqrt_r rnd
       (fl_div_r rnd
          (fl_mul_r rnd (fl_pow2_r rnd sigma_to)
             (fl_sub_r rnd (fl_pow2_r rnd sigma_from) (fl_pow2_r rnd sigma_to)))
          (fl_pow2_r rnd sigma_from))"

definition sigma_down_r :: "(real \<Rightarrow> fl) \<Rightarrow> fl \<Rightarrow> fl \<Rightarrow> fl" where
  "sigma_down_r rnd sigma_to s_up =
     fl_sqrt_r rnd (fl_sub_r rnd (fl_pow2_r rnd sigma_to) (fl_pow2_r rnd s_up))"

definition euler_update_r :: "(real \<Rightarrow> fl) \<Rightarrow> tensor \<Rightarrow> tensor \<Rightarrow> fl \<Rightarrow> error + tensor" where
  "euler_update_r rnd sample derivative dt =
     tensor_op (fl_add_r rnd) sample (map (\<lambda>d. fl_mul_r rnd d dt) derivative)"

definition step_r ::
  "(real \<Rightarrow> fl) \<Rightarrow> ('g \<Rightarrow> real \<times> 'g) \<Rightarrow> scheduler \<Rightarrow> 'g \<Rightarrow> tensor \<Rightarrow> real \<Rightarrow> int \<Rightarrow> tensor
     \<Rightarrow> error + (tensor \<times> scheduler \<times> 'g)" where
  "step_r rnd draw self g model_output timestep step_index sample =
     bind_e (py_index (sigmas self) step_index) (\<lambda>sigma.
     bind_e (tensor_op (fl_sub_r rnd) sample (map (fl_mul_r rnd sigma) model_output))
       (\<lambda>pred_original_sample.
     bind_e (py_index (sigmas self) step_index) (\<lambda>sigma_from.
     bind_e (py_index (sigmas self) (step_index + 1)) (\<lambda>sigma_to.
       let s_up = sigma_up_r rnd sigma_from sigma_to;
           s_down = sigma_down_r rnd sigma_to s_up
       in bind_e (tensor_op (fl_sub_r rnd) sample pred_original_sample) (\<lambda>diff.
          let derivative = map (\<lambda>d. fl_div_r rnd d sigma) diff;
              self' = self \<lparr> derivatives := derivatives self @ [derivative] \<rparr>;
              dt = fl_sub_r rnd s_down sigma
          in bind_e (euler_update_r rnd sample derivative dt) (\<lambda>prev_sample.
             case randn_like draw (length prev_sample) g of
               (noise, g') \<Rightarrow>
                 bind_e (tensor_op (fl_add_r rnd) prev_sample
                           (map (\<lambda>z. fl_mul_r rnd (Fin z) s_up) noise))
                   (\<lambda>prev_sample'. Inr (prev_sample', self', g'))))))))"

text \<open>
  The step as claim C10 words it, in rounded arithmetic: the model output in the place
  of the derivative.
\<close>

definition simplified_prev_sample_r ::
  "(real \<Rightarrow> fl) \<Rightarrow> fl \<Rightarrow> fl \<Rightarrow> real list \<Rightarrow> real list \<Rightarrow> real list \<Rightarrow> tensor" where
  "simplified_prev_sample_r rnd sigma sigma_to sample model_output noise =
     (let s_up = sigma_up_r rnd sigma sigma_to;
          s_down = sigma_down_r rnd sigma_to s_up
      in map (\<lambda>(x, m, z).
                fl_add_r rnd (fl_add_r rnd (Fin x) (fl_mul_r rnd (Fin m) (fl_sub_r rnd s_down sigma)))
                             (fl_mul_r rnd (Fin z) s_up))
           (zip sample (zip model_output noise)))"

section \<open>Example values\<close>

text \<open>
  A small schedule whose noise levels are rational (two training steps, betas \<open>1/2\<close>
  and \<open>3/5\<close>, training sigmas \<open>1\<close> and \<open>2\<close>), and a stand-in generator whose
  \<open>n\<close>-th draw is \<open>n\<close>; they instantiate the theorems below.
\<close>

definition example_config :: config where
  "example_config =
     \<lparr> num_train_timesteps = 2, beta_start = 1/2, beta_end = 3/5,
       beta_schedule = ''linear'', trained_betas = None \<rparr>"

definition counter_draw :: "nat \<Rightarrow> real \<times> nat" where
  "counter_draw g = (real g, Suc g)"

section \<open>Basic facts\<close>

lemma bind_e_simps [simp]: "bind_e (Inl e) f = Inl e" "bind_e (Inr x) f = f x"
  by (simp_all add: bind_e_def)

lemma bind_e_eq_Inr: "bind_e m f = Inr y \<longleftrightarrow> (\<exists>x. m = Inr x \<and> f x = Inr y)"
  by (cases m) simp_all

lemma tensor_op_same_length:
  "length xs = length ys \<Longrightarrow> tensor_op f xs ys = Inr (map2 f xs ys)"
  by (simp add: tensor_op_def)

lemma py_index_in_range:
  "0 \<le> i \<Longrightarrow> i < int (length xs) \<Longrightarrow> py_index xs i = Inr (xs ! nat i)"
  by (simp add: py_index_def)

lemma gather_in_range:
  "\<forall>i \<in> set js. 0 \<le> i \<and> i < int (length xs) \<Longrightarrow> gather xs js = Inr (map (\<lambda>i. xs ! nat i) js)"
  by (induction js) (simp_all add: py_index_in_range)

lemma randn_like_length: "length (fst (randn_like draw n g)) = n"
  by (induction n arbitrary: g) (simp_all add: case_prod_beta)

lemma length_linspace [simp]: "length (linspace a b n) = n"
  by (simp add: linspace_def)


lemma step_returns:
  assumes "py_index (sigmas s) i = Inr sg" and "py_index (sigmas s) (i + 1) = Inr sg_to"
    and "length mo = length x"
  shows "\<exists>p s' g'. step draw s g mo t i x = Inr (p, s', g') \<and> length p = length x
           \<and> sigmas s' = sigmas s"
  using assms
  by (simp add: step_def Let_def tensor_op_same_length euler_update_def case_prod_beta
        randn_like_length)

lemma length_cumprod_from: "length (cumprod_from a xs) = length xs"
  by (induction xs arbitrary: a) simp_all

lemma length_cumprod [simp]: "length (cumprod xs) = length xs"
  by (simp add: cumprod_def length_cumprod_from)



lemma linspace_bounds:
  assumes "b \<le> a" and "t \<in> set (linspace a b n)"
  shows "b \<le> t \<and> t \<le> a"
proof (cases "n = 1")
  case True
  with assms show ?thesis by (simp add: linspace_def)
next
  case False
  from assms(2) False obtain i where i: "i < n" and t: "t = a + real i * ((b - a) / real (n - 1))"
    by (auto simp: linspace_def)
  from i False have n: "0 < real (n - 1)" by simp
  from i have le: "real i \<le> real (n - 1)" by simp
  define q where "q = real i / real (n - 1)"
  have q: "0 \<le> q" "q \<le> 1" using n le by (simp_all add: q_def)
  have t': "t = a - q * (a - b)" by (simp add: t q_def algebra_simps diff_divide_distrib)
  have "0 \<le> q * (a - b)" using q assms(1) by simp
  moreover have "q * (a - b) \<le> 1 * (a - b)" using q assms(1) by (intro mult_right_mono) simp_all
  ultimately show ?thesis by (simp add: t')
qed

lemma interp_zip:
  "map (\<lambda>(f, l, h). interpolate f l h)
     (zip (map frac ts) (zip (map (\<lambda>i. sg ! nat i) (map floor ts)) (map (\<lambda>i. sg ! nat i) (map ceiling ts))))
   = map (\<lambda>t. interpolate (frac t) (sg ! nat \<lfloor>t\<rfloor>) (sg ! nat \<lceil>t\<rceil>)) ts"
  by (induction ts) simp_all

lemma set_timesteps_returns:
  assumes "0 \<le> n" and "1 \<le> num_train_timesteps (config s)"
    and "num_train_timesteps (config s) \<le> int (length (alphas_cumprod s))"
  shows "set_timesteps s n =
     Inr (s \<lparr> num_inference_steps := Some n,
              timesteps := linspace (real_of_int (num_train_timesteps (config s) - 1)) 0 (nat n),
              sigmas := map (\<lambda>t. interpolate (frac t)
                                 (map sigma_of (alphas_cumprod s) ! nat \<lfloor>t\<rfloor>)
                                 (map sigma_of (alphas_cumprod s) ! nat \<lceil>t\<rceil>))
                          (linspace (real_of_int (num_train_timesteps (config s) - 1)) 0 (nat n)) @ [Fin 0],
              init_noise_sigma := Some ((map (\<lambda>t. interpolate (frac t)
                                 (map sigma_of (alphas_cumprod s) ! nat \<lfloor>t\<rfloor>)
                                 (map sigma_of (alphas_cumprod s) ! nat \<lceil>t\<rceil>))
                          (linspace (real_of_int (num_train_timesteps (config s) - 1)) 0 (nat n)) @ [Fin 0]) ! 0),
              derivatives := [] \<rparr>)"
proof -
  let ?N = "num_train_timesteps (config s)"
  let ?ts = "linspace (real_of_int (?N - 1)) 0 (nat n)"
  let ?sg = "map sigma_of (alphas_cumprod s)"
  have rng: "0 \<le> t \<and> t \<le> real_of_int (?N - 1)" if "t \<in> set ?ts" for t
    using linspace_bounds[of 0 "real_of_int (?N - 1)" t "nat n"] that assms(2) by simp
  have lo: "\<forall>i \<in> set (map floor ?ts). 0 \<le> i \<and> i < int (length ?sg)"
  proof
    fix i assume "i \<in> set (map floor ?ts)"
    then obtain t where t: "t \<in> set ?ts" "i = \<lfloor>t\<rfloor>" by auto
    from rng[OF t(1)] have "\<lfloor>t\<rfloor> \<le> \<lfloor>real_of_int (?N - 1)\<rfloor>" by (intro floor_mono) simp
    moreover from rng[OF t(1)] have "0 \<le> \<lfloor>t\<rfloor>" by simp
    ultimately have "0 \<le> \<lfloor>t\<rfloor>" "\<lfloor>t\<rfloor> \<le> ?N - 1" by simp_all
    with t assms(3) show "0 \<le> i \<and> i < int (length ?sg)" by simp
  qed
  have hi: "\<forall>i \<in> set (map ceiling ?ts). 0 \<le> i \<and> i < int (length ?sg)"
  proof
    fix i assume "i \<in> set (map ceiling ?ts)"
    then obtain t where t: "t \<in> set ?ts" "i = \<lceil>t\<rceil>" by auto
    from rng[OF t(1)] have "\<lceil>t\<rceil> \<le> \<lceil>real_of_int (?N - 1)\<rceil>" by (intro ceiling_mono) simp
    moreover from rng[OF t(1)] have "0 \<le> \<lceil>t\<rceil>" by (simp add: zero_le_ceiling) 
    ultimately have "0 \<le> \<lceil>t\<rceil>" "\<lceil>t\<rceil> \<le> ?N - 1" by simp_all
    with t assms(3) show "0 \<le> i \<and> i < int (length ?sg)" by simp
  qed
  have np: "np_linspace (real_of_int (?N - 1)) 0 n = Inr ?ts"
    using assms(1) by (simp add: np_linspace_def)
  show ?thesis
    by (simp only: set_timesteps_def np bind_e_simps Let_def gather_in_range[OF lo]
          gather_in_range[OF hi] interp_zip)
qed


lemma set_timesteps_fields:
  assumes "0 \<le> n" and "1 \<le> num_train_timesteps (config s)"
    and "num_train_timesteps (config s) \<le> int (length (alphas_cumprod s))"
  shows "\<exists>s'. set_timesteps s n = Inr s'
           \<and> timesteps s' = linspace (real_of_int (num_train_timesteps (config s) - 1)) 0 (nat n)
           \<and> sigmas s' = map (\<lambda>t. interpolate (frac t)
                                 (map sigma_of (alphas_cumprod s) ! nat \<lfloor>t\<rfloor>)
                                 (map sigma_of (alphas_cumprod s) ! nat \<lceil>t\<rceil>)) (timesteps s') @ [Fin 0]
           \<and> init_noise_sigma s' = Some (sigmas s' ! 0)
           \<and> num_inference_steps s' = Some n
           \<and> derivatives s' = [] \<and> config s' = config s
           \<and> alphas_cumprod s' = alphas_cumprod s"
  by (simp add: set_timesteps_returns[OF assms])

lemma step_derivatives:
  assumes "step draw s g mo t i x = Inr (p, s', g')"
  shows "\<exists>d. derivatives s' = derivatives s @ [d]"
  using assms
  by (auto simp: step_def bind_e_eq_Inr Let_def case_prod_beta)

lemma set_timesteps_derivatives:
  assumes "set_timesteps s n = Inr s'"
  shows "derivatives s' = []"
  using assms
  by (auto simp: set_timesteps_def bind_e_eq_Inr Let_def)

lemma steps_derivatives:
  "steps draw s g cs = Inr (ps, s', g') \<Longrightarrow> length (derivatives s') = length (derivatives s) + length cs"
proof (induction cs arbitrary: s g ps s' g')
  case Nil
  then show ?case by simp
next
  case (Cons c cs)
  obtain mo t i x where c: "c = (mo, t, i, x)" by (cases c) auto
  from Cons.prems c obtain p s1 g1 ps1 where
    st: "step draw s g mo t i x = Inr (p, s1, g1)" and
    rest: "steps draw s1 g1 cs = Inr (ps1, s', g')"
    by (auto split: sum.splits prod.splits)
  from step_derivatives[OF st] have "length (derivatives s1) = length (derivatives s) + 1"
    by auto
  with Cons.IH[OF rest] show ?case by simp
qed

lemma steps_length:
  "steps draw s g cs = Inr (ps, s', g') \<Longrightarrow> length ps = length cs"
  by (induction cs arbitrary: s g ps s' g') (auto split: sum.splits prod.splits)

lemma steps_returns:
  assumes "\<forall>c \<in> set cs. 0 \<le> fst (snd (snd c)) \<and> fst (snd (snd c)) + 1 < int (length (sigmas s))
              \<and> length (fst c) = length (snd (snd (snd c)))"
  shows "\<exists>ps s' g'. steps draw s g cs = Inr (ps, s', g')"
  using assms
proof (induction cs arbitrary: s g)
  case Nil
  then show ?case by simp
next
  case (Cons c cs)
  obtain mo t i x where c: "c = (mo, t, i, x)" by (cases c) auto
  from Cons.prems c have i: "0 \<le> i" "i + 1 < int (length (sigmas s))" "length mo = length x"
    by simp_all
  from i have "py_index (sigmas s) i = Inr (sigmas s ! nat i)"
    "py_index (sigmas s) (i + 1) = Inr (sigmas s ! nat (i + 1))"
    by (simp_all add: py_index_in_range)
  from step_returns[OF this i(3), of draw g t] obtain p s1 g1 where
    st: "step draw s g mo t i x = Inr (p, s1, g1)" and sg: "sigmas s1 = sigmas s"
    by blast
  from Cons.prems sg have "\<forall>c \<in> set cs. 0 \<le> fst (snd (snd c)) \<and> fst (snd (snd c)) + 1 < int (length (sigmas s1))
              \<and> length (fst c) = length (snd (snd (snd c)))" by simp
  from Cons.IH[OF this, of g1] obtain ps s' g' where "steps draw s1 g1 cs = Inr (ps, s', g')"
    by blast
  with st c show ?case by simp
qed

lemma example_init:
  "\<exists>s. init example_config = Inr s \<and> config s = example_config \<and> length (alphas_cumprod s) = 2
       \<and> alphas_cumprod s = [Fin (1/2), Fin (1/5)] \<and> sigmas s = [Fin 2, Fin 1, Fin 0]"
  by (simp add: init_def example_config_def schedule_betas_def torch_linspace_def linspace_def cumprod_def sigma_of_def upt_rec)

text \<open>
  Claim C9. \<open>set_timesteps\<close>, when it returns, leaves the derivative buffer empty, and
  each call of \<open>step\<close> that returns appends one derivative: after \<open>set_timesteps\<close>
  and \<open>k\<close> calls of \<open>step\<close> the buffer holds exactly \<open>k\<close> derivatives.
\<close>

theorem derivatives_count:
  assumes "set_timesteps s n = Inr s1" and "steps draw s1 g cs = Inr (ps, s2, g2)"
  shows "derivatives s1 = [] \<and> length (derivatives s2) = length cs \<and> length ps = length cs"
  using set_timesteps_derivatives[OF assms(1)] steps_derivatives[OF assms(2)] steps_length[OF assms(2)] by simp

theorem derivatives_count_witness:
  "\<exists>s0 s1 ps s2 g2. init example_config = Inr s0 \<and> set_timesteps s0 2 = Inr s1
     \<and> steps counter_draw s1 0 [([Fin 1], 1, 0, [Fin 1]), ([Fin 3], 0, 1, [Fin 2])] = Inr (ps, s2, g2)
     \<and> derivatives s1 = [] \<and> length (derivatives s2) = 2 \<and> length ps = 2"
proof -
  from example_init obtain s0 where s0: "init example_config = Inr s0" "config s0 = example_config"
    "length (alphas_cumprod s0) = 2" by blast
  have "\<exists>s1. set_timesteps s0 2 = Inr s1 \<and> length (sigmas s1) = 3"
    using set_timesteps_fields[of 2 s0] s0 by (auto simp: example_config_def)
  then obtain s1 where s1: "set_timesteps s0 2 = Inr s1" "length (sigmas s1) = 3" by blast
  let ?cs = "[([Fin 1], 1, 0, [Fin 1]), ([Fin 3], 0, 1, [Fin 2])] :: (tensor \<times> real \<times> int \<times> tensor) list"
  from steps_returns[of ?cs s1 counter_draw 0] s1(2)
  obtain ps s2 g2 where st: "steps counter_draw s1 0 ?cs = Inr (ps, s2, g2)" by auto
  from derivatives_count[OF s1(1) st] s0(1) s1(1) st show ?thesis by simp
qed

text \<open>
  Claim C1. The previous sample that \<open>step\<close> returns, the error it raises instead, and
  the generator it leaves behind are determined by the arguments, the generator state and
  the scheduler's table of sigmas: two schedulers that agree on that table give the same
  result whatever their derivative histories and other fields hold.
\<close>

theorem step_deterministic:
  assumes "sigmas s1 = sigmas s2"
  shows "map_sum id (\<lambda>(p, s, g'). (p, g')) (step draw s1 g mo t i x)
       = map_sum id (\<lambda>(p, s, g'). (p, g')) (step draw s2 g mo t i x)"
  using assms
  by (auto simp: step_def bind_e_def Let_def split: sum.splits prod.splits)

theorem step_deterministic_witness:
  "\<exists>s. init example_config = Inr s
     \<and> sigmas s = sigmas (s \<lparr> derivatives := [[Fin 7]] \<rparr>)
     \<and> map_sum id (\<lambda>(p, s, g'). (p, g')) (step counter_draw s 0 [Fin 1] 1 0 [Fin 1])
       = map_sum id (\<lambda>(p, s, g'). (p, g'))
           (step counter_draw (s \<lparr> derivatives := [[Fin 7]] \<rparr>) 0 [Fin 1] 1 0 [Fin 1])"
proof -
  from example_init obtain s where s: "init example_config = Inr s" by blast
  have eq: "sigmas s = sigmas (s \<lparr> derivatives := [[Fin 7]] \<rparr>)" by simp
  from step_deterministic[OF eq, of counter_draw 0 "[Fin 1]" 1 0 "[Fin 1]"] s eq
  show ?thesis by blast
qed

section \<open>Construction\<close>



lemma schedule_betas_supported: "(\<exists>bs. schedule_betas cfg = Inr bs) \<longleftrightarrow> supported cfg"
  by (auto simp: schedule_betas_def supported_def torch_linspace_def split: option.splits)

text \<open>
  Claim C6. Without explicit betas, a schedule name other than \<open>linear\<close> and
  \<open>scaled_linear\<close> makes the constructor raise NotImplementedError, so that no scheduler
  is produced; and the constructor returns a scheduler exactly on the supported
  configurations.
\<close>

theorem init_fails_fast:
  "(trained_betas cfg = None \<and> beta_schedule cfg \<noteq> ''linear'' \<and> beta_schedule cfg \<noteq> ''scaled_linear''
      \<longrightarrow> init cfg = Inl NotImplementedError)
   \<and> ((\<exists>s. init cfg = Inr s) \<longleftrightarrow> supported cfg)"
proof -
  have "(\<exists>s. init cfg = Inr s) \<longleftrightarrow> (\<exists>bs. schedule_betas cfg = Inr bs)"
    by (auto simp: init_def bind_e_eq_Inr Let_def)
  then have b: "(\<exists>s. init cfg = Inr s) \<longleftrightarrow> supported cfg"
    by (simp add: schedule_betas_supported)
  have a: "init cfg = Inl NotImplementedError"
    if "trained_betas cfg = None" "beta_schedule cfg \<noteq> ''linear''" "beta_schedule cfg \<noteq> ''scaled_linear''"
    using that by (simp add: init_def schedule_betas_def)
  from a b show ?thesis by blast
qed

theorem init_fails_fast_witness:
  "init \<lparr> num_train_timesteps = 1000, beta_start = 1/10000, beta_end = 1/50,
          beta_schedule = ''squaredcos_cap_v2'', trained_betas = None \<rparr> = Inl NotImplementedError
   \<and> supported example_config \<and> (\<exists>s. init example_config = Inr s)"
proof -
  have "supported example_config" by (simp add: supported_def example_config_def)
  with init_fails_fast[of example_config]
    init_fails_fast[of "\<lparr> num_train_timesteps = 1000, beta_start = 1/10000, beta_end = 1/50,
          beta_schedule = ''squaredcos_cap_v2'', trained_betas = None \<rparr>"]
  show ?thesis by simp
qed

section \<open>Timesteps\<close>










section \<open>The sigmas of a run\<close>









section \<open>The step\<close>

lemma map2_fl_sub_Fin:
  "map2 fl_sub (map Fin xs) (map Fin ys) = map Fin (map2 (-) xs ys)"
  by (induction xs arbitrary: ys) (auto simp: zip_Cons1 split: list.splits)

lemma example_configured:
  "\<exists>s. configured example_config 2 = Inr s \<and> sigmas s = [Fin 2, Fin 1, Fin 0]"
  by (simp add: configured_def init_def example_config_def schedule_betas_def torch_linspace_def
        cumprod_def sigma_of_def set_timesteps_def np_linspace_def linspace_def py_index_def
        interpolate_def Let_def upt_rec)

section \<open>Calling set_timesteps\<close>

lemma keyword_rejected:
  assumes "k \<noteq> ''num_inference_steps''" and "k \<noteq> ''device''" and "(k, v) \<in> set kwargs"
  shows "call_set_timesteps s args kwargs = Inl TypeError"
proof -
  from assms(3) have "k \<in> set (map fst kwargs)" by force
  with assms(1,2) have "\<not> list_all (\<lambda>k. k = ''num_inference_steps'' \<or> k = ''device'') (map fst kwargs)"
    by (auto simp: list_all_iff)
  then show ?thesis by (simp add: call_set_timesteps_def Let_def)
qed

text \<open>
  Claim C8, as amended. \<open>set_timesteps\<close> has no parameter for an explicit timestep
  list or sigma list: a call that names \<open>timesteps\<close> or \<open>sigmas\<close> raises TypeError
  whether or not it also supplies a step count, and the step count alone, with or
  without a second positional argument (which lands in the unused \<open>device\<close>), is what
  the body receives.
\<close>

theorem set_timesteps_step_count_only:
  assumes "k = ''timesteps'' \<or> k = ''sigmas''" and "(k, v) \<in> set kwargs"
  shows "call_set_timesteps s args kwargs = Inl TypeError
       \<and> call_set_timesteps s [PyInt n] [] = set_timesteps s n
       \<and> call_set_timesteps s [PyInt n, d] [] = set_timesteps s n"
proof -
  from assms(1) have "k \<noteq> ''num_inference_steps''" "k \<noteq> ''device''" by auto
  from keyword_rejected[OF this assms(2)] show ?thesis
    by (simp add: call_set_timesteps_def)
qed

theorem set_timesteps_step_count_only_witness:
  "configured_call example_config [PyInt 2] [(''timesteps'', PyList [1, 0])] = Inl TypeError
   \<and> configured_call example_config [PyInt 2] [] = configured example_config 2"
proof -
  from example_init obtain s where s: "init example_config = Inr s" by blast
  have "(''timesteps'', PyList [1, 0]) \<in> set [(''timesteps'', PyList [1, 0])]" by simp
  from set_timesteps_step_count_only[OF _ this, of s "[PyInt 2]" 2] s
  show ?thesis by (simp add: configured_call_def configured_def)
qed

text \<open>
  The claim as first stated allows exactly one of the three to be supplied; the code
  accepts the step count only. An explicit timestep list alone, or an explicit sigma
  list alone, is a TypeError; and a list passed as second positional argument next to a
  step count is bound to \<open>device\<close> and ignored, so that this call does not fail.
\<close>

theorem explicit_timesteps_alone_rejected:
  "configured_call example_config [] [(''timesteps'', PyList [1, 0])] = Inl TypeError
   \<and> configured_call example_config [] [(''sigmas'', PyList [2, 1])] = Inl TypeError
   \<and> configured_call example_config [PyInt 2, PyList [1, 0]] [] = configured example_config 2
   \<and> map_sum id timesteps (configured example_config 2) = Inr [1, 0]"
  by (simp add: configured_call_def call_set_timesteps_def configured_def init_def
        example_config_def schedule_betas_def torch_linspace_def cumprod_def sigma_of_def
        set_timesteps_def np_linspace_def linspace_def py_index_def interpolate_def Let_def upt_rec)

section \<open>Guidance combiners\<close>

lemma chunk_count2: "0 < n \<Longrightarrow> (2 * n + n - 1) div n = (2::nat)"
proof (rule div_nat_eqI)
  assume "0 < n"
  then show "n * 2 \<le> 2 * n + n - 1" by arith
  assume "0 < n"
  then show "2 * n + n - 1 < n * Suc 2" by simp
qed

lemma chunk_count3: "0 < n \<Longrightarrow> (3 * n + n - 1) div n = (3::nat)"
proof (rule div_nat_eqI)
  assume "0 < n"
  then show "n * 3 \<le> 3 * n + n - 1" by arith
  assume "0 < n"
  then show "3 * n + n - 1 < n * Suc 3" by simp
qed

lemma chunk_empty2: "chunk 2 ([] :: 'a list) = Inr [[], []]"
  by (simp add: chunk_def Let_def numeral_2_eq_2)

lemma chunk_empty3: "chunk 3 ([] :: 'a list) = Inr [[], [], []]"
proof -
  have "(length ([] :: 'a list) + 3 - 1) div 3 = (0::nat)" by simp
  then have "chunk 3 ([] :: 'a list) = Inr (replicate 3 [])" by (simp only: chunk_def Let_def) simp
  also have "replicate 3 ([] :: 'a list) = [[], [], []]" by (simp only: numeral_3_eq_3 replicate.simps)
  finally show ?thesis .
qed

lemma pieces2: "length u = n \<Longrightarrow> pieces 2 n (u @ c) = [u, take n c]"
proof -
  assume "length u = n"
  then have "pieces (Suc (Suc 0)) n (u @ c) = [u, take n c]" by simp
  then show ?thesis by (simp only: numeral_2_eq_2)
qed

lemma pieces3: "length u = n \<Longrightarrow> length c = n \<Longrightarrow> pieces 3 n (u @ c @ p) = [u, c, take n p]"
proof -
  assume "length u = n" "length c = n"
  then have "pieces (Suc (Suc (Suc 0))) n (u @ c @ p) = [u, c, take n p]" by simp
  then show ?thesis by (simp only: numeral_3_eq_3)
qed

lemma chunk_nonempty:
  assumes "0 < n" and "length xs = k * n" and "0 < k"
  shows "chunk k xs = Inr (pieces ((k * n + n - 1) div n) n xs)"
proof -
  have "(k * n + k - 1) div k = n"
  proof (rule div_nat_eqI)
    show "k * n \<le> k * n + k - 1" using assms(3) by arith
    show "k * n + k - 1 < k * Suc n" using assms(3) by simp
  qed
  then have "(length xs + k - 1) div k = n" by (simp only: assms(2))
  with assms(1,3) show ?thesis by (simp only: chunk_def Let_def assms(2)) simp
qed

lemma chunk2:
  assumes "length u = length c"
  shows "chunk 2 (u @ c) = Inr [u, c]"
proof (cases "u = []")
  case True
  with assms show ?thesis by (simp add: chunk_empty2)
next
  case False
  then have n: "0 < length u" by simp
  have len: "length (u @ c) = 2 * length u" using assms by simp
  have "chunk 2 (u @ c) = Inr (pieces ((2 * length u + length u - 1) div length u) (length u) (u @ c))"
    by (rule chunk_nonempty[OF n len]) simp
  also have "\<dots> = Inr (pieces 2 (length u) (u @ c))" by (simp only: chunk_count2[OF n])
  also have "\<dots> = Inr [u, c]" using assms by (simp add: pieces2)
  finally show ?thesis .
qed

lemma chunk3:
  assumes "length u = length c" and "length c = length p"
  shows "chunk 3 (u @ c @ p) = Inr [u, c, p]"
proof (cases "u = []")
  case True
  with assms show ?thesis by (simp add: chunk_empty3)
next
  case False
  then have n: "0 < length u" by simp
  have len: "length (u @ c @ p) = 3 * length u" using assms by simp
  have "chunk 3 (u @ c @ p) = Inr (pieces ((3 * length u + length u - 1) div length u) (length u) (u @ c @ p))"
    by (rule chunk_nonempty[OF n len]) simp
  also have "\<dots> = Inr (pieces 3 (length u) (u @ c @ p))" by (simp only: chunk_count3[OF n])
  also have "\<dots> = Inr [u, c, p]" using assms by (simp add: pieces3)
  finally show ?thesis .
qed

lemma map2_fl_add_Fin:
  "map2 fl_add (map Fin xs) (map Fin ys) = map Fin (map2 (+) xs ys)"
  by (induction xs arbitrary: ys) (auto simp: zip_Cons1 split: list.splits)

lemma scale_Fin: "map (fl_mul (Fin a)) (map Fin xs) = map Fin (map ((*) a) xs)"
  by simp

lemma cfg_terms:
  assumes "length u = length c"
  shows "bind_e (tensor_op fl_sub (map Fin c) (map Fin u)) (\<lambda>d.
           tensor_op fl_add (map Fin u) (map (fl_mul (Fin gs)) d))
       = Inr (map Fin (map2 (\<lambda>u c. u + gs * (c - u)) u c))"
proof -
  have d: "tensor_op fl_sub (map Fin c) (map Fin u) = Inr (map Fin (map2 (-) c u))"
    using assms by (simp add: tensor_op_same_length map2_fl_sub_Fin del: map_map)
  have a: "tensor_op fl_add (map Fin u) (map Fin (map ((*) gs) (map2 (-) c u)))
         = Inr (map Fin (map2 (+) u (map ((*) gs) (map2 (-) c u))))"
    using assms by (simp add: tensor_op_same_length map2_fl_add_Fin del: map_map)
  have r: "map2 (+) u (map ((*) gs) (map2 (-) c u)) = map2 (\<lambda>u c. u + gs * (c - u)) u c"
    using assms by (induction u c rule: list_induct2) simp_all
  show ?thesis unfolding d bind_e_simps scale_Fin a r ..
qed

lemma pag_terms:
  assumes "length u = length c" and "length c = length p"
  shows "bind_e (tensor_op fl_sub (map Fin c) (map Fin u)) (\<lambda>d1.
         bind_e (tensor_op fl_add (map Fin u) (map (fl_mul (Fin gs)) d1)) (\<lambda>s1.
         bind_e (tensor_op fl_sub (map Fin c) (map Fin p)) (\<lambda>d2.
           tensor_op fl_add s1 (map (fl_mul (Fin ps)) d2))))
       = Inr (map Fin (map (\<lambda>(u, c, p). u + gs * (c - u) + ps * (c - p)) (zip u (zip c p))))"
proof -
  have d1: "tensor_op fl_sub (map Fin c) (map Fin u) = Inr (map Fin (map2 (-) c u))"
    using assms by (simp add: tensor_op_same_length map2_fl_sub_Fin del: map_map)
  have s1: "tensor_op fl_add (map Fin u) (map Fin (map ((*) gs) (map2 (-) c u)))
         = Inr (map Fin (map2 (+) u (map ((*) gs) (map2 (-) c u))))"
    using assms by (simp add: tensor_op_same_length map2_fl_add_Fin del: map_map)
  have d2: "tensor_op fl_sub (map Fin c) (map Fin p) = Inr (map Fin (map2 (-) c p))"
    using assms by (simp add: tensor_op_same_length map2_fl_sub_Fin del: map_map)
  have fin: "tensor_op fl_add (map Fin (map2 (+) u (map ((*) gs) (map2 (-) c u))))
                (map Fin (map ((*) ps) (map2 (-) c p)))
         = Inr (map Fin (map2 (+) (map2 (+) u (map ((*) gs) (map2 (-) c u)))
                                   (map ((*) ps) (map2 (-) c p))))"
    using assms by (simp add: tensor_op_same_length map2_fl_add_Fin del: map_map)
  have r: "map2 (+) (map2 (+) u (map ((*) gs) (map2 (-) c u))) (map ((*) ps) (map2 (-) c p))
         = map (\<lambda>(u, c, p). u + gs * (c - u) + ps * (c - p)) (zip u (zip c p))"
    using assms by (induction u c p rule: list_induct3) simp_all
  show ?thesis unfolding d1 bind_e_simps scale_Fin s1 d2 fin r ..
qed

lemma pag_cfg_value:
  assumes "length u = length c" and "length c = length p"
  shows "apply_perturbed_attention_guidance self (map Fin (u @ c @ p)) True gs t
       = Inr (map Fin (map (\<lambda>(u, c, p). u + gs * (c - u) + get_pag_scale self t * (c - p))
                         (zip u (zip c p))))"
proof -
  have ch: "chunk 3 (map Fin (u @ c @ p)) = Inr [map Fin u, map Fin c, map Fin p]"
    using chunk3[of "map Fin u" "map Fin c" "map Fin p"] assms by simp
  show ?thesis
    unfolding apply_perturbed_attention_guidance_def Let_def ch
    by (simp add: pag_terms[OF assms] del: map_map map_append)
qed

lemma meissonic_value:
  assumes "length u = length c" and "1 < gs"
  shows "meissonic_guidance gs (map Fin (u @ c)) = Inr (map Fin (map2 (\<lambda>u c. u + gs * (c - u)) u c))"
proof -
  have ch: "chunk 2 (map Fin (u @ c)) = Inr [map Fin u, map Fin c]"
    using chunk2[of "map Fin u" "map Fin c"] assms by simp
  show ?thesis
    unfolding meissonic_guidance_def ch using assms(2)
    by (simp add: cfg_terms[OF assms(1)] del: map_map map_append)
qed

lemma zip3_same: "length u = length p \<Longrightarrow>
   map (\<lambda>(u, c, p). u + 1 * (c - u) + 0 * (c - p)) (zip u (zip u p)) = (u :: real list)"
  by (induction u p rule: list_induct2) simp_all

lemma zip3_zero: "length u = length c \<Longrightarrow> length c = length p \<Longrightarrow>
   map (\<lambda>(u, c, p). u + 0 * (c - u) + 0 * (c - p)) (zip u (zip c p)) = (u :: real list)"
  by (induction u c p rule: list_induct3) simp_all

text \<open>
  Claim C5, as amended. On three branches of one shape the PAG combiner computes
  \<open>uncond + scale * (cond - uncond) + pag_scale * (cond - perturbed)\<close>; when the
  \<open>pag_scale\<close> weight is zero it returns the unconditional branch for a scale of one
  with identical conditional and unconditional branches, and for a scale of zero. The
  Meissonic pipeline computes \<open>uncond + scale * (cond - uncond)\<close> only for a scale
  above one and otherwise leaves the model output as it is.
\<close>

theorem guidance_combiner:
  assumes "length u = length c" and "length c = length p"
  shows "apply_perturbed_attention_guidance self (map Fin (u @ c @ p)) True gs t
           = Inr (map Fin (map (\<lambda>(u, c, p). u + gs * (c - u) + get_pag_scale self t * (c - p))
                             (zip u (zip c p))))
       \<and> (get_pag_scale self t = 0 \<longrightarrow>
            apply_perturbed_attention_guidance self (map Fin (u @ u @ p)) True 1 t = Inr (map Fin u)
          \<and> apply_perturbed_attention_guidance self (map Fin (u @ c @ p)) True 0 t = Inr (map Fin u))
       \<and> (1 < gs \<longrightarrow>
            meissonic_guidance gs (map Fin (u @ c)) = Inr (map Fin (map2 (\<lambda>u c. u + gs * (c - u)) u c)))
       \<and> (gs \<le> 1 \<longrightarrow> meissonic_guidance gs model_output = Inr model_output)"
proof -
  from assms have up: "length u = length p" by simp
  have one: "apply_perturbed_attention_guidance self (map Fin (u @ u @ p)) True 1 t = Inr (map Fin u)"
    if "get_pag_scale self t = 0"
    unfolding pag_cfg_value[OF refl up] that by (simp only: zip3_same[OF up])
  have zero: "apply_perturbed_attention_guidance self (map Fin (u @ c @ p)) True 0 t = Inr (map Fin u)"
    if "get_pag_scale self t = 0"
    unfolding pag_cfg_value[OF assms] that by (simp only: zip3_zero[OF assms])
  have gate: "meissonic_guidance gs model_output = Inr model_output" if "gs \<le> 1"
    using that by (simp add: meissonic_guidance_def)
  from pag_cfg_value[OF assms] one zero meissonic_value[OF assms(1)] gate
  show ?thesis by blast
qed

theorem guidance_combiner_witness:
  "apply_perturbed_attention_guidance \<lparr> pag_scale = 3, pag_adaptive_scaling = 0 \<rparr>
       (map Fin ([1] @ [2] @ [4])) True 5 500 = Inr (map Fin [0])
   \<and> apply_perturbed_attention_guidance \<lparr> pag_scale = 0, pag_adaptive_scaling = 0 \<rparr>
       (map Fin ([1] @ [1] @ [4])) True 1 500 = Inr (map Fin [1])
   \<and> apply_perturbed_attention_guidance \<lparr> pag_scale = 0, pag_adaptive_scaling = 0 \<rparr>
       (map Fin ([1] @ [2] @ [4])) True 0 500 = Inr (map Fin [1])
   \<and> meissonic_guidance 5 (map Fin ([1] @ [2])) = Inr (map Fin [6])
   \<and> meissonic_guidance (1/2) [Fin 1, Fin 2] = Inr [Fin 1, Fin 2]"
proof -
  have l: "length [1::real] = length [2::real]" "length [2::real] = length [4::real]"
    "length [1::real] = length [1::real]" by simp_all
  note a = guidance_combiner[OF l(1) l(2), of "\<lparr> pag_scale = 3, pag_adaptive_scaling = 0 \<rparr>" 5 500 "[]"]
  note b = guidance_combiner[OF l(1) l(2), of "\<lparr> pag_scale = 0, pag_adaptive_scaling = 0 \<rparr>" "1/2" 500
             "[Fin 1, Fin 2]"]
  from a b show ?thesis by (simp add: get_pag_scale_def)
qed

text \<open>
  The claim as first stated fails for the Meissonic combiner at the two scales it
  names: the formula sits behind \<open>if guidance_scale > 1.0\<close>, so that at the scales
  \<open>0.0\<close> and \<open>1.0\<close> the model output is passed on whole and not reduced to its
  unconditional half (the pipeline does not even run an unconditional branch then).
\<close>

theorem meissonic_gate_skips_formula:
  "chunk 2 [Fin 1, Fin 2] = Inr [[Fin 1], [Fin 2]]
   \<and> meissonic_guidance 0 [Fin 1, Fin 2] = Inr [Fin 1, Fin 2]
   \<and> meissonic_guidance 0 [Fin 1, Fin 2] \<noteq> Inr [Fin 1]
   \<and> meissonic_guidance 1 [Fin 1, Fin 1] = Inr [Fin 1, Fin 1]
   \<and> meissonic_guidance 1 [Fin 1, Fin 1] \<noteq> Inr [Fin 1]"
proof -
  have "chunk 2 ([Fin 1] @ [Fin 2]) = Inr [[Fin 1], [Fin 2]]" by (rule chunk2) simp
  then show ?thesis by (simp add: meissonic_guidance_def)
qed

section \<open>The noise schedule\<close>
















section \<open>Rounding to single precision\<close>

lemma nearest_even_int [simp]: "nearest_even (real_of_int n) = n"
  by (simp add: nearest_even_def)

lemma binary32_zero [simp]: "binary32 0 = Fin 0"
  by (simp add: binary32_def)

lemma floor_log2:
  "0 < x \<Longrightarrow> 2 powr real_of_int k \<le> x \<Longrightarrow> x < 2 powr real_of_int (k + 1) \<Longrightarrow> \<lfloor>log 2 x\<rfloor> = k"
  using floor_log_eq_powr_iff[of x 2 k] by simp

lemma nearest_even_ge: "real_of_int a \<le> q \<Longrightarrow> a \<le> nearest_even q"
  using le_floor_iff[of a q] by (auto simp: nearest_even_def)

lemma nearest_even_le:
  assumes "q \<le> real_of_int b"
  shows "nearest_even q \<le> b"
proof (cases "q = real_of_int b")
  case True
  then show ?thesis by simp
next
  case False
  with assms have "q < real_of_int b" by simp
  then have "\<lfloor>q\<rfloor> < b" by (simp add: floor_less_iff)
  then show ?thesis by (auto simp: nearest_even_def)
qed

lemma binary32_at_exponent:
  assumes "r = real_of_int m * 2 powr real_of_int (e - 23)"
    and "r \<noteq> 0"
    and "max \<lfloor>log 2 \<bar>r\<bar>\<rfloor> (- 126) = e"
    and "\<bar>r\<bar> < 2 ^ 128"
  shows "binary32 r = Fin r"
proof -
  have "r / 2 powr real_of_int (e - 23) = real_of_int m"
    using assms(1) by simp
  then show ?thesis
    using assms(2,3,4) assms(1) unfolding binary32_def Let_def by simp
qed

lemma two_powr_split: "2 powr real_of_int e = 2 ^ 23 * 2 powr real_of_int (e - 23)"
proof -
  have "2 powr real_of_int e = 2 powr (23 + real_of_int (e - 23))" by simp
  also have "\<dots> = 2 powr 23 * 2 powr real_of_int (e - 23)" by (rule powr_add)
  finally show ?thesis by simp
qed

lemma two_powr_Suc: "2 powr real_of_int (e + 1) = 2 * 2 powr real_of_int e"
proof -
  have "2 powr real_of_int (e + 1) = 2 powr (1 + real_of_int e)" by (simp add: add.commute)
  also have "\<dots> = 2 powr 1 * 2 powr real_of_int e" by (rule powr_add)
  finally show ?thesis by simp
qed

lemma representable:
  fixes n e :: int
  assumes e: "- 126 \<le> e"
    and n: "\<bar>n\<bar> \<le> 2 ^ 24"
    and normal: "- 126 < e \<Longrightarrow> 2 ^ 23 \<le> \<bar>n\<bar>"
    and range: "\<bar>real_of_int n * 2 powr real_of_int (e - 23)\<bar> < 2 ^ 128"
  shows "binary32 (real_of_int n * 2 powr real_of_int (e - 23))
         = Fin (real_of_int n * 2 powr real_of_int (e - 23))"
proof (cases "n = 0")
  case True
  then show ?thesis by simp
next
  case False
  define u where "u = 2 powr real_of_int (e - 23)"
  define r where "r = real_of_int n * u"
  have u: "0 < u" by (simp add: u_def)
  have r0: "r \<noteq> 0" using False u by (simp add: r_def)
  have absr: "\<bar>r\<bar> = real_of_int \<bar>n\<bar> * u" using u by (simp add: r_def abs_mult)
  have pe: "2 powr real_of_int e = 2 ^ 23 * u" unfolding u_def by (rule two_powr_split)
  have pe1: "2 powr real_of_int (e + 1) = 2 ^ 24 * u" unfolding two_powr_Suc pe by simp
  have small: "\<bar>r\<bar> < 2 ^ 128" using range by (simp add: r_def u_def)
  have "binary32 r = Fin r"
  proof (cases "\<bar>n\<bar> = 2 ^ 24")
    case True
    have ar: "\<bar>r\<bar> = 2 powr real_of_int (e + 1)" using absr True pe1 by simp
    have "\<lfloor>log 2 \<bar>r\<bar>\<rfloor> = e + 1"
    proof (rule floor_log2)
      show "0 < \<bar>r\<bar>" using r0 by simp
      show "2 powr real_of_int (e + 1) \<le> \<bar>r\<bar>" using ar by simp
      show "\<bar>r\<bar> < 2 powr real_of_int (e + 1 + 1)" unfolding two_powr_Suc[of "e + 1"] ar by simp
    qed
    then have mx: "max \<lfloor>log 2 \<bar>r\<bar>\<rfloor> (- 126) = e + 1" using e by simp
    have "n = 2 ^ 24 \<or> n = - (2 ^ 24)" using True by linarith
    then have "even n" by auto
    then obtain m where m: "n = 2 * m" by (auto elim: evenE)
    have "2 powr real_of_int (e + 1 - 23) = 2 * u"
      using two_powr_Suc[of "e - 23"] by (simp add: u_def algebra_simps)
    then have "r = real_of_int m * 2 powr real_of_int (e + 1 - 23)"
      by (simp add: r_def m)
    then show ?thesis using r0 mx small by (rule binary32_at_exponent)
  next
    case False
    with n have lt: "\<bar>n\<bar> < 2 ^ 24" by simp
    then have "real_of_int \<bar>n\<bar> < 2 ^ 24"
      using of_int_less_iff[of "\<bar>n\<bar>" "2 ^ 24", where ?'a = real] by simp
    then have "real_of_int \<bar>n\<bar> * u < 2 ^ 24 * u" using u by (rule mult_strict_right_mono)
    then have up: "\<bar>r\<bar> < 2 powr real_of_int (e + 1)" unfolding absr pe1 .
    have mx: "max \<lfloor>log 2 \<bar>r\<bar>\<rfloor> (- 126) = e"
    proof (cases "- 126 < e")
      case True
      then have "2 ^ 23 \<le> \<bar>n\<bar>" by (rule normal)
      then have "(2::real) ^ 23 \<le> real_of_int \<bar>n\<bar>"
        using of_int_le_iff[of "2 ^ 23" "\<bar>n\<bar>", where ?'a = real] by simp
      then have "2 ^ 23 * u \<le> real_of_int \<bar>n\<bar> * u" using u by (intro mult_right_mono) simp_all
      then have lo: "2 powr real_of_int e \<le> \<bar>r\<bar>" unfolding absr pe .
      have "\<lfloor>log 2 \<bar>r\<bar>\<rfloor> = e"
        using r0 lo up by (intro floor_log2) simp_all
      then show ?thesis using e by simp
    next
      case False
      with e have e126: "e = - 126" by simp
      have "log 2 \<bar>r\<bar> < real_of_int (e + 1)"
        using up r0 by (simp add: log_less_iff)
      then have "\<lfloor>log 2 \<bar>r\<bar>\<rfloor> < e + 1" by (rule iffD2[OF floor_less_iff])
      then show ?thesis using e126 by simp
    qed
    have "r = real_of_int n * 2 powr real_of_int (e - 23)" by (simp add: r_def u_def)
    then show ?thesis using r0 mx small by (rule binary32_at_exponent)
  qed
  then show ?thesis by (simp add: r_def u_def)
qed

lemma binary32_idempotent:
  assumes "binary32 x = Fin y"
  shows "binary32 y = Fin y"
proof (cases "x = 0")
  case True
  with assms show ?thesis by simp
next
  case False
  define E where "E = \<lfloor>log 2 \<bar>x\<bar>\<rfloor>"
  define e where "e = max E (- 126)"
  define u where "u = 2 powr real_of_int (e - 23)"
  define n where "n = nearest_even (x / u)"
  have u: "0 < u" by (simp add: u_def)
  have e: "- 126 \<le> e" by (simp add: e_def)
  have Ee: "E \<le> e" by (simp add: e_def)
  have res: "binary32 x = (if 2 ^ 128 \<le> \<bar>real_of_int n * u\<bar> then NonFin else Fin (real_of_int n * u))"
    using False by (simp add: binary32_def Let_def n_def u_def e_def E_def)
  with assms have y: "y = real_of_int n * u" and range: "\<bar>real_of_int n * u\<bar> < 2 ^ 128"
    by (auto split: if_splits)
  have ax: "0 < \<bar>x\<bar>" using False by simp
  have bounds: "2 powr real_of_int E \<le> \<bar>x\<bar> \<and> \<bar>x\<bar> < 2 powr real_of_int (E + 1)"
    using floor_log_eq_powr_iff[of "\<bar>x\<bar>" 2 E] ax by (simp add: E_def)
  have pe: "2 powr real_of_int e = 2 ^ 23 * u" unfolding u_def by (rule two_powr_split)
  have pe1: "2 powr real_of_int (e + 1) = 2 ^ 24 * u" unfolding two_powr_Suc pe by simp
  have "2 powr real_of_int (E + 1) \<le> 2 powr real_of_int (e + 1)"
    using Ee by (intro powr_mono) simp_all
  with bounds have "\<bar>x\<bar> < 2 ^ 24 * u" unfolding pe1 by linarith
  then have "\<bar>x\<bar> / u < 2 ^ 24" using u by (simp add: pos_divide_less_eq)
  then have q: "\<bar>x\<bar> / u < 2 ^ 24" .
  have "x / u \<le> \<bar>x\<bar> / u" using u by (intro divide_right_mono) simp_all
  with q have "x / u \<le> real_of_int (2 ^ 24)" by simp
  then have n_le: "n \<le> 2 ^ 24" unfolding n_def by (rule nearest_even_le)
  have "(- \<bar>x\<bar>) / u \<le> x / u" using u by (intro divide_right_mono) simp_all
  with q have "real_of_int (- (2 ^ 24)) \<le> x / u" by simp
  then have n_ge: "- (2 ^ 24) \<le> n" unfolding n_def by (rule nearest_even_ge)
  have n: "\<bar>n\<bar> \<le> 2 ^ 24" using n_le n_ge by linarith
  have normal: "2 ^ 23 \<le> \<bar>n\<bar>" if "- 126 < e"
  proof -
    from that have "e = E" by (simp add: e_def split: if_splits)
    with bounds have "2 ^ 23 * u \<le> \<bar>x\<bar>" using pe by simp
    then have lo: "2 ^ 23 \<le> \<bar>x\<bar> / u" using u by (simp add: pos_le_divide_eq)
    show ?thesis
    proof (cases "0 < x")
      case True
      then have "\<bar>x\<bar> = x" by simp
      with lo have "real_of_int (2 ^ 23) \<le> x / u" by simp
      then have "2 ^ 23 \<le> n" unfolding n_def by (rule nearest_even_ge)
      then show ?thesis by linarith
    next
      case False
      then have "\<bar>x\<bar> = - x" by simp
      with lo have "x / u \<le> real_of_int (- (2 ^ 23))" by simp
      then have "n \<le> - (2 ^ 23)" unfolding n_def by (rule nearest_even_le)
      then show ?thesis by linarith
    qed
  qed
  have "binary32 (real_of_int n * 2 powr real_of_int (e - 23))
        = Fin (real_of_int n * 2 powr real_of_int (e - 23))"
    using e n normal range unfolding u_def by (rule representable)
  then show ?thesis by (simp add: y u_def)
qed

section \<open>The step in single precision\<close>

lemma exact_ops:
  "fl_add_r Fin = fl_add" "fl_sub_r Fin = fl_sub" "fl_mul_r Fin = fl_mul"
  "fl_div_r Fin = fl_div" "fl_pow2_r Fin = fl_pow2" "fl_sqrt_r Fin = fl_sqrt"
proof -
  show "fl_add_r Fin = fl_add" by (intro ext) (rename_tac a b, case_tac a; case_tac b; simp)
  show "fl_sub_r Fin = fl_sub" by (intro ext) (rename_tac a b, case_tac a; case_tac b; simp)
  show "fl_mul_r Fin = fl_mul" by (intro ext) (rename_tac a b, case_tac a; case_tac b; simp)
  show "fl_div_r Fin = fl_div" by (intro ext) (rename_tac a b, case_tac a; case_tac b; simp)
  show "fl_pow2_r Fin = fl_pow2" by (intro ext) (rename_tac a, case_tac a; simp)
  show "fl_sqrt_r Fin = fl_sqrt" by (intro ext) (rename_tac a, case_tac a; simp)
qed

lemma step_exact: "step_r Fin = step"
  by (intro ext)
     (simp add: step_r_def step_def exact_ops sigma_up_r_def sigma_up_def sigma_down_r_def
        sigma_down_def euler_update_r_def euler_update_def)

lemma step_r_value:
  assumes "py_index (sigmas s) i = Inr sg" and "py_index (sigmas s) (i + 1) = Inr sg_to"
    and "length mo = length x"
  shows "step_r rnd draw s g mo t i x =
     (let su = sigma_up_r rnd sg sg_to;
          dt = fl_sub_r rnd (sigma_down_r rnd sg_to su) sg;
          deriv = map (\<lambda>d. fl_div_r rnd d sg)
                    (map2 (fl_sub_r rnd) x (map2 (fl_sub_r rnd) x (map (fl_mul_r rnd sg) mo)));
          prev = map2 (fl_add_r rnd) x (map (\<lambda>d. fl_mul_r rnd d dt) deriv)
      in Inr (map2 (fl_add_r rnd) prev
                (map (\<lambda>z. fl_mul_r rnd (Fin z) su) (fst (randn_like draw (length x) g))),
              s \<lparr> derivatives := derivatives s @ [deriv] \<rparr>,
              snd (randn_like draw (length x) g)))"
  using assms
  by (simp add: step_r_def Let_def tensor_op_same_length euler_update_r_def case_prod_beta
        randn_like_length del: map_map)

lemma euler_update_r_same_length:
  "length d = length x \<Longrightarrow>
   euler_update_r rnd x d dt = Inr (map2 (fl_add_r rnd) x (map (\<lambda>d. fl_mul_r rnd d dt) d))"
  by (simp add: euler_update_r_def tensor_op_same_length)

lemma add_zero_rounded:
  assumes "\<And>x y. rnd x = Fin y \<Longrightarrow> rnd y = Fin y"
  shows "fl_add_r rnd (fl_add_r rnd a b) (Fin 0) = fl_add_r rnd a b"
proof (cases a)
  case (Fin u)
  show ?thesis
  proof (cases b)
    case (Fin v)
    show ?thesis
    proof (cases "rnd (u + v)")
      case (Fin w)
      with assms have "rnd w = Fin w" by blast
      with Fin \<open>a = Fin u\<close> \<open>b = Fin v\<close> show ?thesis by simp
    next
      case NonFin
      with \<open>a = Fin u\<close> \<open>b = Fin v\<close> show ?thesis by simp
    qed
  next
    case NonFin
    with Fin show ?thesis by simp
  qed
next
  case NonFin
  then show ?thesis by simp
qed

lemma no_noise_added:
  assumes idem: "\<And>x y. rnd x = Fin y \<Longrightarrow> rnd y = Fin y"
    and "length xs = length ys" and "length ys = length nz"
  shows "map2 (fl_add_r rnd) (map2 (fl_add_r rnd) xs ys) (map (\<lambda>z. Fin 0) nz)
       = map2 (fl_add_r rnd) xs ys"
  using assms(2,3)
  by (induction xs ys nz rule: list_induct3) (simp_all add: add_zero_rounded[OF idem])

lemma terminal_sigma_up:
  assumes zero: "rnd 0 = Fin 0"
    and idem: "\<And>x y. rnd x = Fin y \<Longrightarrow> rnd y = Fin y"
    and sq: "rnd (sg * sg) = Fin q" and q: "q \<noteq> 0"
  shows "sigma_up_r rnd (Fin sg) (Fin 0) = Fin 0"
    and "sigma_down_r rnd (Fin 0) (Fin 0) = Fin 0"
proof -
  have "rnd q = Fin q" using sq by (rule idem)
  then show "sigma_up_r rnd (Fin sg) (Fin 0) = Fin 0"
    using zero sq q by (simp add: sigma_up_r_def)
  show "sigma_down_r rnd (Fin 0) (Fin 0) = Fin 0"
    using zero by (simp add: sigma_down_r_def)
qed

text \<open>
  Claim C2, as amended. At a terminal step (the next sigma is the zero sentinel) at
  which the square of the current sigma is a nonzero finite number of the format, so
  that the sigma is nonzero and its square neither overflows nor underflows,
  \<open>sigma_up\<close> is \<open>0\<close> and the returned sample is the Euler update
  \<open>sample + derivative * (sigma_down - sigma)\<close> of the same call: the noise drawn
  contributes nothing. This holds for every rounding that keeps zero and the numbers
  it has produced, so for exact arithmetic and for single precision, and for every
  sample and model output of one shape, whatever they contain.
\<close>

theorem terminal_step_no_noise:
  assumes "rnd 0 = Fin 0"
    and "\<forall>x y. rnd x = Fin y \<longrightarrow> rnd y = Fin y"
    and "py_index (sigmas s) i = Inr (Fin sg)"
    and "rnd (sg * sg) = Fin q" and "q \<noteq> 0"
    and "py_index (sigmas s) (i + 1) = Inr (Fin 0)"
    and "length model_output = length sample"
  shows "sigma_up_r rnd (Fin sg) (Fin 0) = Fin 0
       \<and> (\<exists>p s' g'.
             step_r rnd draw s g model_output t i sample = Inr (p, s', g')
           \<and> euler_update_r rnd sample (last (derivatives s'))
                (fl_sub_r rnd (sigma_down_r rnd (Fin 0) (sigma_up_r rnd (Fin sg) (Fin 0))) (Fin sg))
              = Inr p)"
proof -
  have idem: "\<And>x y. rnd x = Fin y \<Longrightarrow> rnd y = Fin y" using assms(2) by blast
  note su = terminal_sigma_up[OF assms(1) idem assms(4,5)]
  let ?noise = "fst (randn_like draw (length sample) g)"
  let ?dt = "fl_sub_r rnd (Fin 0) (Fin sg)"
  let ?deriv = "map (\<lambda>d. fl_div_r rnd d (Fin sg))
                  (map2 (fl_sub_r rnd) sample
                     (map2 (fl_sub_r rnd) sample (map (fl_mul_r rnd (Fin sg)) model_output)))"
  let ?scaled = "map (\<lambda>d. fl_mul_r rnd d ?dt) ?deriv"
  have nlen: "length ?noise = length sample" by (rule randn_like_length)
  have dlen: "length ?deriv = length sample" using assms(7) by simp
  have slen: "length sample = length ?scaled" using assms(7) by simp
  have noise: "map (\<lambda>z. fl_mul_r rnd (Fin z) (Fin 0)) ?noise = map (\<lambda>z. Fin 0) ?noise"
    using assms(1) by simp
  have same: "map2 (fl_add_r rnd) (map2 (fl_add_r rnd) sample ?scaled) (map (\<lambda>z. Fin 0) ?noise)
            = map2 (fl_add_r rnd) sample ?scaled"
  proof (rule no_noise_added)
    show "\<And>x y. rnd x = Fin y \<Longrightarrow> rnd y = Fin y" by (rule idem)
    show "length sample = length ?scaled" by (rule slen)
    show "length ?scaled = length ?noise" unfolding nlen slen[symmetric] ..
  qed
  have run: "step_r rnd draw s g model_output t i sample
           = Inr (map2 (fl_add_r rnd) sample ?scaled,
                  s \<lparr> derivatives := derivatives s @ [?deriv] \<rparr>,
                  snd (randn_like draw (length sample) g))"
    by (simp only: step_r_value[OF assms(3,6,7)] Let_def su noise same)
  have upd: "euler_update_r rnd sample ?deriv ?dt = Inr (map2 (fl_add_r rnd) sample ?scaled)"
    using dlen by (rule euler_update_r_same_length)
  have lst: "last (derivatives (s \<lparr> derivatives := derivatives s @ [?deriv] \<rparr>)) = ?deriv"
    by simp
  show ?thesis
  proof (intro conjI exI)
    show "sigma_up_r rnd (Fin sg) (Fin 0) = Fin 0" by (rule su(1))
    show "step_r rnd draw s g model_output t i sample
           = Inr (map2 (fl_add_r rnd) sample ?scaled,
                  s \<lparr> derivatives := derivatives s @ [?deriv] \<rparr>,
                  snd (randn_like draw (length sample) g))"
      by (rule run)
    show "euler_update_r rnd sample
            (last (derivatives (s \<lparr> derivatives := derivatives s @ [?deriv] \<rparr>)))
            (fl_sub_r rnd (sigma_down_r rnd (Fin 0) (sigma_up_r rnd (Fin sg) (Fin 0))) (Fin sg))
          = Inr (map2 (fl_add_r rnd) sample ?scaled)"
      by (simp only: lst su upd)
  qed
qed

lemma binary32_eval:
  assumes "2 powr real_of_int e \<le> \<bar>x\<bar>" and "\<bar>x\<bar> < 2 powr real_of_int (e + 1)" and "- 126 \<le> e"
  shows "binary32 x =
     (if 2 ^ 128 \<le> \<bar>real_of_int (nearest_even (x / 2 powr real_of_int (e - 23)))
                       * 2 powr real_of_int (e - 23)\<bar>
      then NonFin
      else Fin (real_of_int (nearest_even (x / 2 powr real_of_int (e - 23)))
                * 2 powr real_of_int (e - 23)))"
proof -
  have "(0::real) < 2 powr real_of_int e" by simp
  then have pos: "0 < \<bar>x\<bar>" using assms(1) by (rule less_le_trans)
  then have "\<lfloor>log 2 \<bar>x\<bar>\<rfloor> = e" using assms(1,2) by (rule floor_log2)
  then have "max \<lfloor>log 2 \<bar>x\<bar>\<rfloor> (- 126) = e" using assms(3) by simp
  moreover have "x \<noteq> 0" using pos by simp
  ultimately show ?thesis by (simp add: binary32_def Let_def)
qed

lemma binary32_values:
  "binary32 1 = Fin 1" "binary32 (- 1) = Fin (- 1)" "binary32 2 = Fin 2"
  "binary32 (1 / 2) = Fin (1 / 2)" "binary32 3 = Fin 3" "binary32 4 = Fin 4"
  "binary32 (5 / 2) = Fin (5 / 2)" "binary32 (- (1 / 2)) = Fin (- (1 / 2))"
proof -
  show "binary32 1 = Fin 1"
    using binary32_eval[of 0 1] by (simp add: powr_neg_numeral nearest_even_def frac_def)
  show "binary32 (- 1) = Fin (- 1)"
    using binary32_eval[of 0 "- 1"] by (simp add: powr_neg_numeral nearest_even_def frac_def)
  show "binary32 2 = Fin 2"
    using binary32_eval[of 1 2] by (simp add: powr_neg_numeral nearest_even_def frac_def)
  show "binary32 (1 / 2) = Fin (1 / 2)"
    using binary32_eval[of "- 1" "1 / 2"]
    by (simp add: powr_neg_numeral powr_minus nearest_even_def frac_def)
  show "binary32 3 = Fin 3"
    using binary32_eval[of 1 3] by (simp add: powr_neg_numeral nearest_even_def frac_def)
  show "binary32 4 = Fin 4"
    using binary32_eval[of 2 4] by (simp add: powr_neg_numeral nearest_even_def frac_def)
  show "binary32 (5 / 2) = Fin (5 / 2)"
    using binary32_eval[of 1 "5 / 2"] by (simp add: powr_neg_numeral nearest_even_def frac_def)
  show "binary32 (- (1 / 2)) = Fin (- (1 / 2))"
    using binary32_eval[of "- 1" "- (1 / 2)"]
    by (simp add: powr_neg_numeral powr_minus nearest_even_def frac_def)
qed

lemma binary32_rounds: "binary32 67108861 = Fin 67108860"
  using binary32_eval[of 25 67108861] by (simp add: nearest_even_def frac_def)

lemma binary32_overflows:
  "binary32 (2 ^ 128) = NonFin" "binary32 (2 ^ 140) = NonFin"
  "binary32 (- (2 ^ 127)) = Fin (- (2 ^ 127))"
proof -
  show "binary32 (2 ^ 128) = NonFin"
    using binary32_eval[of 128 "2 ^ 128"] by (simp add: nearest_even_def frac_def)
  show "binary32 (2 ^ 140) = NonFin"
    using binary32_eval[of 140 "2 ^ 140"] by (simp add: nearest_even_def frac_def)
  show "binary32 (- (2 ^ 127)) = Fin (- (2 ^ 127))"
    using binary32_eval[of 127 "- (2 ^ 127)"] by (simp add: nearest_even_def frac_def)
qed

lemma binary32_underflows: "binary32 (1 / 2 ^ 160) = Fin 0"
proof -
  have "log 2 ((2::real) ^ 160) = 160" using log_pow_cancel[of 2 160] by simp
  then have "log 2 (1 / 2 ^ 160 :: real) = - 160"
    by (simp add: log_divide)
  then have "max \<lfloor>log 2 \<bar>1 / 2 ^ 160 :: real\<bar>\<rfloor> (- 126) = - 126" by simp
  then show ?thesis
    by (simp add: binary32_def Let_def powr_neg_numeral nearest_even_def frac_def)
qed

lemma binary32_keeps: "\<forall>x y. binary32 x = Fin y \<longrightarrow> binary32 y = Fin y"
  using binary32_idempotent by blast

theorem terminal_step_no_noise_witness:
  "\<exists>s p s' g'. configured example_config 2 = Inr s
     \<and> py_index (sigmas s) 1 = Inr (Fin 1) \<and> py_index (sigmas s) (1 + 1) = Inr (Fin 0)
     \<and> binary32 0 = Fin 0 \<and> binary32 (1 * 1) = Fin 1
     \<and> randn_like counter_draw (length [Fin 4]) 7 = ([7], g')
     \<and> sigma_up_r binary32 (Fin 1) (Fin 0) = Fin 0
     \<and> step_r binary32 counter_draw s 7 [Fin 1] 0 1 [Fin 4] = Inr (p, s', g')
     \<and> euler_update_r binary32 [Fin 4] (last (derivatives s'))
           (fl_sub_r binary32 (sigma_down_r binary32 (Fin 0) (sigma_up_r binary32 (Fin 1) (Fin 0)))
              (Fin 1)) = Inr p
     \<and> p = [Fin 3]"
proof -
  from example_configured obtain s where s: "configured example_config 2 = Inr s"
    "sigmas s = [Fin 2, Fin 1, Fin 0]" by blast
  have i1: "py_index (sigmas s) 1 = Inr (Fin 1)" and i2: "py_index (sigmas s) (1 + 1) = Inr (Fin 0)"
    by (simp_all add: s(2) py_index_def)
  have sq: "binary32 (1 * 1) = Fin 1" by (simp add: binary32_values)
  have run: "step_r binary32 counter_draw s 7 [Fin 1] 0 1 [Fin 4]
           = Inr ([Fin 3], s \<lparr> derivatives := derivatives s @ [[Fin 1]] \<rparr>, 8)"
    by (simp add: step_r_value[OF i1 i2] Let_def sigma_up_r_def sigma_down_r_def binary32_values
          counter_draw_def)
  have noise: "randn_like counter_draw (length [Fin 4]) 7 = ([7], 8)"
    by (simp add: counter_draw_def)
  from terminal_step_no_noise[where model_output = "[Fin 1]" and sample = "[Fin 4]"
         and draw = counter_draw and g = "7::nat" and t = 0,
         OF binary32_zero binary32_keeps i1 sq _ i2] s(1) i1 i2 sq run noise
  show ?thesis by auto
qed

text \<open>
  The claim as first stated fails where the square of the current sigma is not a
  nonzero finite number. A linear schedule that starts at \<open>beta_start = 0\<close> has a first
  training noise level of zero, so the last step of a run goes from sigma \<open>0\<close> to the
  sentinel \<open>0\<close>: \<open>sigma_up\<close> is the root of \<open>0 / 0\<close>, a nan, and so is every element of
  the returned sample, in exact arithmetic and in single precision alike. In single
  precision the square of a sigma of \<open>2^70\<close> overflows and that of a sigma of \<open>2^-80\<close>
  underflows to zero; \<open>sigma_up\<close> is a nan there as well.
\<close>

theorem terminal_step_zero_sigma:
  "map_sum id sigmas
     (configured \<lparr> num_train_timesteps = 2, beta_start = 0, beta_end = 1/2,
                   beta_schedule = ''linear'', trained_betas = None \<rparr> 2)
     = Inr [Fin 1, Fin 0, Fin 0]
   \<and> sigma_up (Fin 0) (Fin 0) = NonFin
   \<and> prev_sample_of
       (configured_step counter_draw
          \<lparr> num_train_timesteps = 2, beta_start = 0, beta_end = 1/2,
            beta_schedule = ''linear'', trained_betas = None \<rparr> 2 0 [Fin 1] 0 1 [Fin 1])
     = Inr [NonFin]
   \<and> sigma_up_r binary32 (Fin 0) (Fin 0) = NonFin
   \<and> bind_e (configured \<lparr> num_train_timesteps = 2, beta_start = 0, beta_end = 1/2,
                   beta_schedule = ''linear'', trained_betas = None \<rparr> 2)
        (\<lambda>s. map_sum id fst (step_r binary32 counter_draw s 7 [Fin 1] 0 1 [Fin 1]))
     = Inr [NonFin]
   \<and> sigma_up_r binary32 (Fin (2 ^ 70)) (Fin 0) = NonFin
   \<and> sigma_up_r binary32 (Fin (1 / 2 ^ 80)) (Fin 0) = NonFin"
proof -
  have "(2::real) ^ 70 * 2 ^ 70 = 2 ^ 140" by simp
  then have over: "binary32 (2 ^ 70 * 2 ^ 70) = NonFin" by (simp only: binary32_overflows)
  have "(1::real) / 2 ^ 80 * (1 / 2 ^ 80) = 1 / 2 ^ 160" by simp
  then have under: "binary32 (1 / 2 ^ 80 * (1 / 2 ^ 80)) = Fin 0"
    by (simp only: binary32_underflows)
  have a: "sigma_up_r binary32 (Fin (2 ^ 70)) (Fin 0) = NonFin"
    unfolding sigma_up_r_def fl_pow2_r.simps over by simp
  have b: "sigma_up_r binary32 (Fin (1 / 2 ^ 80)) (Fin 0) = NonFin"
    unfolding sigma_up_r_def fl_pow2_r.simps under by simp
  have c: "map_sum id sigmas
     (configured \<lparr> num_train_timesteps = 2, beta_start = 0, beta_end = 1/2,
                   beta_schedule = ''linear'', trained_betas = None \<rparr> 2)
     = Inr [Fin 1, Fin 0, Fin 0]
   \<and> sigma_up (Fin 0) (Fin 0) = NonFin
   \<and> prev_sample_of
       (configured_step counter_draw
          \<lparr> num_train_timesteps = 2, beta_start = 0, beta_end = 1/2,
            beta_schedule = ''linear'', trained_betas = None \<rparr> 2 0 [Fin 1] 0 1 [Fin 1])
     = Inr [NonFin]
   \<and> sigma_up_r binary32 (Fin 0) (Fin 0) = NonFin
   \<and> bind_e (configured \<lparr> num_train_timesteps = 2, beta_start = 0, beta_end = 1/2,
                   beta_schedule = ''linear'', trained_betas = None \<rparr> 2)
        (\<lambda>s. map_sum id fst (step_r binary32 counter_draw s 7 [Fin 1] 0 1 [Fin 1]))
     = Inr [NonFin]"
    by (simp add: configured_step_def prev_sample_of_def configured_def init_def schedule_betas_def
        torch_linspace_def cumprod_def sigma_of_def set_timesteps_def np_linspace_def linspace_def
        py_index_def interpolate_def Let_def upt_rec step_def sigma_up_def sigma_down_def
        tensor_op_def euler_update_def counter_draw_def step_r_def sigma_up_r_def sigma_down_r_def
        euler_update_r_def binary32_values)
  from a b c show ?thesis by simp
qed

lemma derivative_unrounded:
  assumes "length x = length mo" and "sg \<noteq> 0"
    and "\<forall>(a, m) \<in> set (zip x mo).
           rnd m = Fin m \<and> rnd (sg * m) = Fin (sg * m) \<and> rnd (a - sg * m) = Fin (a - sg * m)"
  shows "map (\<lambda>d. fl_div_r rnd d (Fin sg))
           (map2 (fl_sub_r rnd) (map Fin x)
              (map2 (fl_sub_r rnd) (map Fin x) (map (fl_mul_r rnd (Fin sg)) (map Fin mo))))
       = map Fin mo"
  using assms by (induction x mo rule: list_induct2) simp_all

lemma combine_terms_r:
  assumes "length x = length mo" and "length mo = length nz"
  shows "map2 (fl_add_r rnd)
           (map2 (fl_add_r rnd) (map Fin x) (map (\<lambda>d. fl_mul_r rnd d dt) (map Fin mo)))
           (map (\<lambda>z. fl_mul_r rnd (Fin z) su) nz)
       = map (\<lambda>(x, m, z). fl_add_r rnd (fl_add_r rnd (Fin x) (fl_mul_r rnd (Fin m) dt))
                                       (fl_mul_r rnd (Fin z) su))
           (zip x (zip mo nz))"
  using assms by (induction x mo nz rule: list_induct3) simp_all

lemma euler_update_r_zero:
  assumes "length x = length mo" and "\<forall>m \<in> set mo. m = 0"
    and "\<forall>(a, m) \<in> set (zip x mo). rnd m = Fin m \<and> rnd (a - sg * m) = Fin (a - sg * m)"
  shows "euler_update_r rnd (map Fin x) (map Fin mo) (Fin d) = Inr (map Fin x)"
proof -
  have "map2 (fl_add_r rnd) (map Fin x) (map (\<lambda>m. fl_mul_r rnd m (Fin d)) (map Fin mo))
        = map Fin x"
    using assms by (induction x mo rule: list_induct2) simp_all
  with assms(1) show ?thesis
    by (simp add: euler_update_r_def tensor_op_same_length del: map_map)
qed

text \<open>
  Claim C10, as amended. With a current sigma that is a nonzero number and a sample
  and a model output of one shape such that, element by element, the model output
  \<open>m\<close>, the product \<open>sigma * m\<close> and the difference \<open>sample - sigma * m\<close> are numbers of
  the format (they are computed without rounding and without overflow), the derivative
  that \<open>step\<close> computes and appends is the model output itself, and the returned sample
  is \<open>sample + model_output * (sigma_down - sigma) + noise * sigma_up\<close> in the arithmetic
  of the format; with a model output of zeros and a finite step size
  \<open>sigma_down - sigma\<close> the update without the noise is the sample itself. In exact
  arithmetic (\<open>rnd = Fin\<close>) the condition on the elements always holds.
\<close>

theorem step_simplified_unrounded:
  assumes "py_index (sigmas s) i = Inr (Fin sg)" and "sg \<noteq> 0"
    and "py_index (sigmas s) (i + 1) = Inr sigma_to"
    and "length model_output = length sample"
    and "\<forall>(x, m) \<in> set (zip sample model_output).
           rnd m = Fin m \<and> rnd (sg * m) = Fin (sg * m) \<and> rnd (x - sg * m) = Fin (x - sg * m)"
  shows "\<exists>p s' g' noise.
           step_r rnd draw s g (map Fin model_output) t i (map Fin sample) = Inr (p, s', g')
         \<and> randn_like draw (length sample) g = (noise, g')
         \<and> last (derivatives s') = map Fin model_output
         \<and> p = simplified_prev_sample_r rnd (Fin sg) sigma_to sample model_output noise
         \<and> ((\<forall>m \<in> set model_output. m = 0)
              \<and> fl_sub_r rnd (sigma_down_r rnd sigma_to (sigma_up_r rnd (Fin sg) sigma_to)) (Fin sg)
                  \<noteq> NonFin
            \<longrightarrow> euler_update_r rnd (map Fin sample) (last (derivatives s'))
                  (fl_sub_r rnd (sigma_down_r rnd sigma_to (sigma_up_r rnd (Fin sg) sigma_to))
                     (Fin sg))
                = Inr (map Fin sample))"
proof -
  let ?su = "sigma_up_r rnd (Fin sg) sigma_to"
  let ?dt = "fl_sub_r rnd (sigma_down_r rnd sigma_to ?su) (Fin sg)"
  let ?noise = "fst (randn_like draw (length sample) g)"
  let ?deriv = "map (\<lambda>d. fl_div_r rnd d (Fin sg))
                  (map2 (fl_sub_r rnd) (map Fin sample)
                     (map2 (fl_sub_r rnd) (map Fin sample)
                        (map (fl_mul_r rnd (Fin sg)) (map Fin model_output))))"
  have len: "length sample = length model_output" using assms(4) by simp
  have nlen: "length ?noise = length sample" by (rule randn_like_length)
  have deriv: "?deriv = map Fin model_output"
    using len assms(2,5) by (rule derivative_unrounded)
  have fin: "map2 (fl_add_r rnd)
               (map2 (fl_add_r rnd) (map Fin sample)
                  (map (\<lambda>d. fl_mul_r rnd d ?dt) (map Fin model_output)))
               (map (\<lambda>z. fl_mul_r rnd (Fin z) ?su) ?noise)
           = simplified_prev_sample_r rnd (Fin sg) sigma_to sample model_output ?noise"
    unfolding simplified_prev_sample_r_def Let_def
    using len by (rule combine_terms_r) (simp add: nlen assms(4))
  have run: "step_r rnd draw s g (map Fin model_output) t i (map Fin sample)
           = Inr (simplified_prev_sample_r rnd (Fin sg) sigma_to sample model_output ?noise,
                  s \<lparr> derivatives := derivatives s @ [map Fin model_output] \<rparr>,
                  snd (randn_like draw (length sample) g))"
    using step_r_value[OF assms(1,3), of "map Fin model_output" "map Fin sample" rnd draw g t]
      assms(4)
    by (simp only: Let_def length_map deriv fin)
  have zero: "euler_update_r rnd (map Fin sample) (map Fin model_output) ?dt
              = Inr (map Fin sample)"
    if "\<forall>m \<in> set model_output. m = 0" "?dt \<noteq> NonFin"
  proof -
    from that(2) obtain d where d: "?dt = Fin d" by (cases ?dt) simp_all
    have "\<forall>(a, m) \<in> set (zip sample model_output).
            rnd m = Fin m \<and> rnd (a - sg * m) = Fin (a - sg * m)"
      using assms(5) by auto
    with len that(1) show ?thesis unfolding d by (rule euler_update_r_zero)
  qed
  have lst: "last (derivatives (s \<lparr> derivatives := derivatives s @ [map Fin model_output] \<rparr>))
           = map Fin model_output" by simp
  show ?thesis
    unfolding run using zero lst
    by (cases "randn_like draw (length sample) g") auto
qed

theorem step_simplified_unrounded_witness:
  "\<exists>s p s' g' noise q r h.
       configured example_config 2 = Inr s
     \<and> py_index (sigmas s) 0 = Inr (Fin 2) \<and> py_index (sigmas s) (0 + 1) = Inr (Fin 1)
     \<and> binary32 (1 / 2) = Fin (1 / 2) \<and> binary32 (2 * (1 / 2)) = Fin (2 * (1 / 2))
     \<and> binary32 (3 - 2 * (1 / 2)) = Fin (3 - 2 * (1 / 2))
     \<and> binary32 1 = Fin 1 \<and> binary32 (2 * 1) = Fin (2 * 1)
     \<and> binary32 (4 - 2 * 1) = Fin (4 - 2 * 1)
     \<and> step_r binary32 counter_draw s 1 (map Fin [1 / 2, 1]) 1 0 (map Fin [3, 4]) = Inr (p, s', g')
     \<and> randn_like counter_draw (length [3, 4 :: real]) 1 = (noise, g') \<and> noise = [1, 2]
     \<and> last (derivatives s') = map Fin [1 / 2, 1]
     \<and> p = simplified_prev_sample_r binary32 (Fin 2) (Fin 1) [3, 4] [1 / 2, 1] noise
     \<and> py_index (sigmas s) 1 = Inr (Fin 1) \<and> py_index (sigmas s) (1 + 1) = Inr (Fin 0)
     \<and> step_r binary32 counter_draw s 1 (map Fin [0, 0]) 0 1 (map Fin [3, 4]) = Inr (q, r, h)
     \<and> fl_sub_r binary32 (sigma_down_r binary32 (Fin 0) (sigma_up_r binary32 (Fin 1) (Fin 0)))
          (Fin 1) = Fin (- 1)
     \<and> last (derivatives r) = map Fin [0, 0]
     \<and> euler_update_r binary32 (map Fin [3, 4]) (last (derivatives r)) (Fin (- 1))
         = Inr (map Fin [3, 4])"
proof -
  from example_configured obtain s where s: "configured example_config 2 = Inr s"
    "sigmas s = [Fin 2, Fin 1, Fin 0]" by blast
  have i0: "py_index (sigmas s) 0 = Inr (Fin 2)" and i1: "py_index (sigmas s) (0 + 1) = Inr (Fin 1)"
    and j0: "py_index (sigmas s) 1 = Inr (Fin 1)" and j1: "py_index (sigmas s) (1 + 1) = Inr (Fin 0)"
    by (simp_all add: s(2) py_index_def)
  have vals: "binary32 (1 / 2) = Fin (1 / 2)" "binary32 (2 * (1 / 2)) = Fin (2 * (1 / 2))"
    "binary32 (3 - 2 * (1 / 2)) = Fin (3 - 2 * (1 / 2))"
    "binary32 1 = Fin 1" "binary32 (2 * 1) = Fin (2 * 1)" "binary32 (4 - 2 * 1) = Fin (4 - 2 * 1)"
    by (simp_all add: binary32_values)
  have h1: "\<forall>(x, m) \<in> set (zip [3, 4] [1 / 2, 1]).
              binary32 m = Fin m \<and> binary32 (2 * m) = Fin (2 * m)
            \<and> binary32 (x - 2 * m) = Fin (x - 2 * m)"
    by (simp add: binary32_values)
  have h2: "\<forall>(x, m) \<in> set (zip [3, 4] [0, 0]).
              binary32 m = Fin m \<and> binary32 (1 * m) = Fin (1 * m)
            \<and> binary32 (x - 1 * m) = Fin (x - 1 * m)"
    by (simp add: binary32_values)
  have dt: "fl_sub_r binary32 (sigma_down_r binary32 (Fin 0) (sigma_up_r binary32 (Fin 1) (Fin 0)))
              (Fin 1) = Fin (- 1)"
    by (simp add: sigma_up_r_def sigma_down_r_def binary32_values)
  have noise: "randn_like counter_draw (length [3, 4 :: real]) 1 = ([1, 2], 3)"
    by (simp add: counter_draw_def)
  from step_simplified_unrounded[OF i0 _ i1 _ h1, of counter_draw 1 1]
       step_simplified_unrounded[OF j0 _ j1 _ h2, of counter_draw 1 0]
       s(1) i0 i1 j0 j1 vals dt noise
  show ?thesis by auto
qed

text \<open>
  As first stated the claim fails in single precision. After a linear schedule of one
  training step with both bounds \<open>0.5\<close> and \<open>set_timesteps(1)\<close> the sigmas are \<open>1\<close> and
  the sentinel. For the sample \<open>2^26\<close> and the model output \<open>3\<close>, both numbers of the
  format, \<open>sample - sigma * model_output\<close> is \<open>67108861\<close>, which rounds to \<open>67108860\<close>, so
  the derivative is \<open>4\<close> and not the model output \<open>3\<close> that exact arithmetic gives. For
  the sample \<open>2^127\<close> and the model output \<open>-2^127\<close> the same difference overflows and
  the derivative is not a finite number.
\<close>

theorem step_derivative_rounded:
  "map_sum id sigmas
     (configured \<lparr> num_train_timesteps = 1, beta_start = 1/2, beta_end = 1/2,
                   beta_schedule = ''linear'', trained_betas = None \<rparr> 1)
     = Inr [Fin 1, Fin 0]
   \<and> binary32 3 = Fin 3 \<and> binary32 (2 ^ 26) = Fin (2 ^ 26)
   \<and> bind_e (configured \<lparr> num_train_timesteps = 1, beta_start = 1/2, beta_end = 1/2,
                   beta_schedule = ''linear'', trained_betas = None \<rparr> 1)
        (\<lambda>s. map_sum id (\<lambda>(p, s', g'). last (derivatives s'))
               (step_r binary32 counter_draw s 1 [Fin 3] 0 0 [Fin (2 ^ 26)]))
     = Inr [Fin 4]
   \<and> bind_e (configured \<lparr> num_train_timesteps = 1, beta_start = 1/2, beta_end = 1/2,
                   beta_schedule = ''linear'', trained_betas = None \<rparr> 1)
        (\<lambda>s. map_sum id (\<lambda>(p, s', g'). last (derivatives s'))
               (step counter_draw s 1 [Fin 3] 0 0 [Fin (2 ^ 26)]))
     = Inr [Fin 3]
   \<and> binary32 (- (2 ^ 127)) = Fin (- (2 ^ 127)) \<and> binary32 (2 ^ 127) = Fin (2 ^ 127)
   \<and> bind_e (configured \<lparr> num_train_timesteps = 1, beta_start = 1/2, beta_end = 1/2,
                   beta_schedule = ''linear'', trained_betas = None \<rparr> 1)
        (\<lambda>s. map_sum id (\<lambda>(p, s', g'). last (derivatives s'))
               (step_r binary32 counter_draw s 1 [Fin (- (2 ^ 127))] 0 0 [Fin (2 ^ 127)]))
     = Inr [NonFin]"
proof -
  let ?cfg = "\<lparr> num_train_timesteps = 1, beta_start = 1/2, beta_end = 1/2,
                beta_schedule = ''linear'', trained_betas = None \<rparr>"
  have "\<exists>s. configured ?cfg 1 = Inr s \<and> sigmas s = [Fin 1, Fin 0]"
    by (simp add: configured_def init_def schedule_betas_def torch_linspace_def
        cumprod_def sigma_of_def set_timesteps_def np_linspace_def linspace_def py_index_def
        interpolate_def Let_def upt_rec)
  then obtain s where s: "configured ?cfg 1 = Inr s" "sigmas s = [Fin 1, Fin 0]" by blast
  have i0: "py_index (sigmas s) 0 = Inr (Fin 1)" and i1: "py_index (sigmas s) (0 + 1) = Inr (Fin 0)"
    by (simp_all add: s(2) py_index_def)
  have p26: "binary32 (2 ^ 26) = Fin (2 ^ 26)"
    using binary32_eval[of 26 "2 ^ 26"] by (simp add: nearest_even_def frac_def)
  have p127: "binary32 (2 ^ 127) = Fin (2 ^ 127)"
    using binary32_eval[of 127 "2 ^ 127"] by (simp add: nearest_even_def frac_def)
  have a: "map_sum id (\<lambda>(p, s', g'). last (derivatives s'))
             (step_r binary32 counter_draw s 1 [Fin 3] 0 0 [Fin (2 ^ 26)]) = Inr [Fin 4]"
    by (simp add: step_r_value[OF i0 i1] Let_def binary32_values binary32_rounds)
  have b: "map_sum id (\<lambda>(p, s', g'). last (derivatives s'))
             (step counter_draw s 1 [Fin 3] 0 0 [Fin (2 ^ 26)]) = Inr [Fin 3]"
    using step_r_value[OF i0 i1, of "[Fin 3]" "[Fin (2 ^ 26)]" Fin counter_draw 1 0]
    by (simp add: step_exact Let_def)
  have c: "map_sum id (\<lambda>(p, s', g'). last (derivatives s'))
             (step_r binary32 counter_draw s 1 [Fin (- (2 ^ 127))] 0 0 [Fin (2 ^ 127)])
           = Inr [NonFin]"
    by (simp add: step_r_value[OF i0 i1] Let_def binary32_overflows[simplified])
  have neg: "binary32 (- (2 ^ 127)) = Fin (- (2 ^ 127))" by (rule binary32_overflows)
  show ?thesis
    unfolding s bind_e_simps a b c
    using s(2) p26 p127 neg by (simp add: binary32_values)
qed

end
